theory Spec2Isabelle
  imports Complex_Main "HOL-Library.AList"
begin

section \<open>Python values, strings and dictionaries\<close>

text \<open>
  The orchestrator threads one Python dictionary through its nodes, and every agent returns
  a dictionary (or, on one path of the inventory agent, a list of dictionaries). Values are
  modelled by the datatype below. A \<open>float\<close> is modelled by the rational number its
  source text denotes; rounding is not modelled, and nothing proved here depends on it.
  A string is the list of the bytes of its UTF-8 encoding, so the non-ASCII literals of
  the sources are written out as byte lists. A dictionary is an association list in
  insertion order with distinct keys, updated the way Python updates one: the value of a
  present key is replaced in place, a new key goes to the end.
\<close>

datatype pyval =
    PNone
  | PBool bool
  | PInt int
  | PFloat rat
  | PStr string
  | PList "pyval list"
  | PDict "(string \<times> pyval) list"

type_synonym pydict = "(string \<times> pyval) list"

datatype py_error =
    KeyError string
  | TypeError string
  | ValueError string
  | AttributeError string
  | IndexError string
  | RuntimeError string

text \<open>\<open>str(e)\<close> of an exception, as \<open>BaseAgent.run\<close> stores it under \<open>"error"\<close>.
  A \<open>KeyError\<close> carries the \<open>repr\<close> of the missing key, which is its \<open>str\<close>.\<close>

fun error_text :: "py_error \<Rightarrow> string" where
  "error_text (KeyError k) = k"
| "error_text (TypeError m) = m"
| "error_text (ValueError m) = m"
| "error_text (AttributeError m) = m"
| "error_text (IndexError m) = m"
| "error_text (RuntimeError m) = m"

text \<open>Truth value of a Python object (\<open>if x:\<close>, \<open>not x\<close>, \<open>a or b\<close>).\<close>

fun truthy :: "pyval \<Rightarrow> bool" where
  "truthy PNone = False"
| "truthy (PBool b) = b"
| "truthy (PInt i) = (i \<noteq> 0)"
| "truthy (PFloat r) = (r \<noteq> 0)"
| "truthy (PStr s) = (s \<noteq> [])"
| "truthy (PList xs) = (xs \<noteq> [])"
| "truthy (PDict kvs) = (kvs \<noteq> [])"

text \<open>\<open>d.update(other)\<close> and \<open>d.get(k, default)\<close> on dictionaries.\<close>

definition dict_update :: "pydict \<Rightarrow> pydict \<Rightarrow> pydict" where
  "dict_update d kvs = foldl (\<lambda>acc kv. AList.update (fst kv) (snd kv) acc) d kvs"

definition dict_get :: "pydict \<Rightarrow> string \<Rightarrow> pyval \<Rightarrow> pyval" where
  "dict_get d k dflt = (case map_of d k of None \<Rightarrow> dflt | Some v \<Rightarrow> v)"

subsection \<open>Strings\<close>

text \<open>
  \<open>str.lower()\<close> is modelled on ASCII letters; bytes outside \<open>A\<close>..\<open>Z\<close> are left as they
  are (Python also folds non-ASCII letters). The theorems about the classifier are stated
  over the lower-cased text, whatever it is.
\<close>

definition lower_char :: "char \<Rightarrow> char" where
  "lower_char c =
     (case map_of (zip ''ABCDEFGHIJKLMNOPQRSTUVWXYZ'' ''abcdefghijklmnopqrstuvwxyz'') c of
        None \<Rightarrow> c | Some d \<Rightarrow> d)"

definition lower :: "string \<Rightarrow> string" where
  "lower s = map lower_char s"

text \<open>\<open>w in s\<close> for strings: \<open>w\<close> occurs in \<open>s\<close> as a contiguous substring.\<close>

fun starts_with :: "string \<Rightarrow> string \<Rightarrow> bool" where
  "starts_with s [] = True"
| "starts_with [] (c # w) = False"
| "starts_with (d # s) (c # w) = (d = c \<and> starts_with s w)"

fun has_substr :: "string \<Rightarrow> string \<Rightarrow> bool" where
  "has_substr w [] = (w = [])"
| "has_substr w (c # s) = (starts_with (c # s) w \<or> has_substr w s)"

text \<open>\<open>any(word in request for word in words)\<close>.\<close>

definition any_word_in :: "string list \<Rightarrow> string \<Rightarrow> bool" where
  "any_word_in ws request = list_ex (\<lambda>w. has_substr w request) ws"

text \<open>\<open>sep.join(parts)\<close>.\<close>

fun join :: "string \<Rightarrow> string list \<Rightarrow> string" where
  "join sep [] = []"
| "join sep [p] = p"
| "join sep (p # q # ps) = p @ sep @ join sep (q # ps)"

text \<open>Decimal digits of a natural number and of an integer (\<open>str(n)\<close>).\<close>

definition digit_char :: "nat \<Rightarrow> char" where
  "digit_char d = ''0123456789'' ! d"

fun show_nat :: "nat \<Rightarrow> string" where
  "show_nat n = (if n < 10 then [digit_char n] else show_nat (n div 10) @ [digit_char (n mod 10)])"

declare show_nat.simps [simp del]

definition show_int :: "int \<Rightarrow> string" where
  "show_int i = (if i < 0 then CHR ''-'' # show_nat (nat (- i)) else show_nat (nat i))"

text \<open>
  Fixed-point formatting of a number, \<open>f"{x:.0f}"\<close> and \<open>f"{x:.1f}"\<close>: the value is
  rounded to the wanted number of decimals, ties to the even neighbour, and printed
  with its sign.
\<close>

definition round_half_even :: "rat \<Rightarrow> int" where
  "round_half_even x =
     (let f = \<lfloor>x\<rfloor>; d = x - of_int f
      in if d < 1 / 2 then f else if 1 / 2 < d then f + 1 else if even f then f else f + 1)"

definition format_0f :: "rat \<Rightarrow> string" where
  "format_0f x =
     (if x < 0 then CHR ''-'' # show_nat (nat (round_half_even (- x)))
      else show_nat (nat (round_half_even x)))"

definition format_1f :: "rat \<Rightarrow> string" where
  "format_1f x =
     (let n = nat (round_half_even (\<bar>x\<bar> * 10))
      in (if x < 0 then ''-'' else []) @ show_nat (n div 10) @ ''.'' @ show_nat (n mod 10))"

text \<open>
  \<open>str(v)\<close>, as an f-string renders a value. It is exact on \<open>None\<close>, booleans, integers and
  strings. A float is printed in positional notation with at most 17 decimals, and a
  container is printed with its strings quoted but not escaped: approximations of
  \<open>repr\<close> that no theorem below relies on.
\<close>

fun frac_digits :: "nat \<Rightarrow> rat \<Rightarrow> string" where
  "frac_digits n r =
     (if n = 0 \<or> r = 0 then []
      else digit_char (nat \<lfloor>r * 10\<rfloor>) # frac_digits (n - 1) (r * 10 - of_int \<lfloor>r * 10\<rfloor>))"

declare frac_digits.simps [simp del]

definition float_repr :: "rat \<Rightarrow> string" where
  "float_repr x =
     (let a = \<bar>x\<bar>; ds = frac_digits 17 (a - of_int \<lfloor>a\<rfloor>)
      in (if x < 0 then ''-'' else []) @ show_nat (nat \<lfloor>a\<rfloor>) @ ''.'' @ (if ds = [] then ''0'' else ds))"

fun py_repr :: "pyval \<Rightarrow> string" where
  "py_repr PNone = ''None''"
| "py_repr (PBool b) = (if b then ''True'' else ''False'')"
| "py_repr (PInt i) = show_int i"
| "py_repr (PFloat r) = float_repr r"
| "py_repr (PStr s) = [CHR 0x27] @ s @ [CHR 0x27]"
| "py_repr (PList xs) = ''['' @ join '', '' (map py_repr xs) @ '']''"
| "py_repr (PDict kvs) =
     ''{'' @ join '', '' (map (\<lambda>kv. [CHR 0x27] @ fst kv @ [CHR 0x27] @ '': '' @ py_repr (snd kv)) kvs) @ ''}''"

definition py_str :: "pyval \<Rightarrow> string" where
  "py_str v = (case v of PStr s \<Rightarrow> s | _ \<Rightarrow> py_repr v)"

section \<open>The shared state\<close>

text \<open>
  \<open>AgentState\<close> (graph/state.py) is a \<open>TypedDict\<close>. The fields that the nodes read and
  write with a fixed type are record fields. Every other key lives in \<open>slots\<close>: the six
  result slots, \<open>intent\<close>, \<open>next_action\<close>, \<open>error\<close>, and whatever key
  \<open>state.update(result)\<close> stores, since at run time the state is a plain dictionary.
  A cart entry is what \<open>add_to_cart\<close> (main.py) appends from a validated \<open>CartUpdate\<close>.
  An audit-log entry is a dictionary; the wall-clock readings of the source
  (\<open>timestamp\<close>, \<open>execution_time\<close>) are left out of the entries.
\<close>

record cart_item =
  product_id :: string
  quantity :: int
  item_size :: "string option"

record agent_state =
  session_id :: string
  customer_id :: string
  channel :: string
  current_request :: string
  messages :: "pyval list"
  liked_products :: "string list"
  cart :: "cart_item list"
  location :: string
  agent_calls :: "pydict list"
  agents_needed :: "string list"
  response :: string
  slots :: "string \<rightharpoonup> pyval"

text \<open>\<open>state.get(k)\<close> for a key held in \<open>slots\<close>: \<open>None\<close> when the key is absent.\<close>

definition state_get :: "agent_state \<Rightarrow> string \<Rightarrow> pyval" where
  "state_get st k = (case slots st k of None \<Rightarrow> PNone | Some v \<Rightarrow> v)"

definition create_initial_state ::
  "string \<Rightarrow> string \<Rightarrow> string \<Rightarrow> string \<Rightarrow> pyval list \<Rightarrow> string list \<Rightarrow> cart_item list
     \<Rightarrow> string \<Rightarrow> agent_state" where
  "create_initial_state sid cid chan req msgs liked crt loc =
     \<lparr> session_id = sid, customer_id = cid, channel = chan, current_request = req,
       messages = msgs, liked_products = liked, cart = crt, location = loc,
       agent_calls = [], agents_needed = [], response = [],
       slots = map_of
         [(''intent'', PNone), (''recommendations'', PNone), (''inventory_status'', PNone),
          (''payment_status'', PNone), (''fulfillment_info'', PNone), (''loyalty_info'', PNone),
          (''support_info'', PNone), (''next_action'', PNone), (''error'', PNone)] \<rparr>"

text \<open>The six per-agent result slots of the state.\<close>

definition result_slots :: "string list" where
  "result_slots = [''recommendations'', ''inventory_status'', ''payment_status'',
                   ''fulfillment_info'', ''loyalty_info'', ''support_info'']"

section \<open>The intent classifier (\<open>orchestrator_node\<close>)\<close>

definition recommendation_words :: "string list" where
  "recommendation_words = [''recommend'', ''suggest'', ''show'', ''match'', ''pair'', ''goes with'']"

definition inventory_words :: "string list" where
  "inventory_words = [''stock'', ''available'', ''store'', ''nearby'', ''reserve'']"

definition payment_words :: "string list" where
  "payment_words = [''pay'', ''payment'', ''checkout'', ''buy'', ''purchase'']"

definition fulfillment_words :: "string list" where
  "fulfillment_words = [''deliver'', ''shipping'', ''delivery'', ''when will'']"

definition loyalty_words :: "string list" where
  "loyalty_words = [''discount'', ''offer'', ''points'', ''loyalty'', ''coupon'']"

definition support_words :: "string list" where
  "support_words = [''return'', ''refund'', ''exchange'', ''problem'', ''issue'', ''help'']"

text \<open>
  The value of the local variable \<open>agents_needed\<close> when \<open>orchestrator_node\<close> stores it:
  six keyword tests in source order, each appending its id, then the two forced inclusions.
\<close>

definition select_agents :: "agent_state \<Rightarrow> string list" where
  "select_agents st =
     (let request = lower (current_request st);
          a1 = (if any_word_in recommendation_words request then [''recommendation''] else []);
          a2 = a1 @ (if any_word_in inventory_words request then [''inventory''] else []);
          a3 = a2 @ (if any_word_in payment_words request then [''payment''] else []);
          a4 = a3 @ (if any_word_in fulfillment_words request then [''fulfillment''] else []);
          a5 = a4 @ (if any_word_in loyalty_words request then [''loyalty''] else []);
          a6 = a5 @ (if any_word_in support_words request then [''support''] else []);
          a7 = a6 @ (if (cart st \<noteq> [] \<or> liked_products st \<noteq> [])
                        \<and> ''recommendation'' \<notin> set a6 then [''recommendation''] else [])
      in a7 @ (if ''loyalty'' \<notin> set a7 \<and> length a7 > 0 then [''loyalty''] else []))"

definition orchestrator_node :: "agent_state \<Rightarrow> agent_state" where
  "orchestrator_node st =
     (let needed = select_agents st
      in st\<lparr> agents_needed := needed,
             agent_calls := agent_calls st @
               [[(''agent'', PStr ''orchestrator''), (''action'', PStr ''analyzed_request''),
                 (''agents_to_call'', PList (map PStr needed))]] \<rparr>)"

definition should_call_agents :: "agent_state \<Rightarrow> string" where
  "should_call_agents st = (if agents_needed st \<noteq> [] then ''call_agents'' else ''simple_response'')"

text \<open>
  The classifier as the specification words it: the keyword groups in their fixed order,
  each contributing its agent id when one of its keywords occurs in the lower-cased
  request; then \<open>recommendation\<close> when the cart or the liked products are non-empty; then
  \<open>loyalty\<close> when anything was selected; duplicates suppressed, first-seen order kept.
\<close>

definition keyword_groups :: "(string \<times> string list) list" where
  "keyword_groups =
     [(''recommendation'', recommendation_words), (''inventory'', inventory_words),
      (''payment'', payment_words), (''fulfillment'', fulfillment_words),
      (''loyalty'', loyalty_words), (''support'', support_words)]"

definition matched_groups :: "string \<Rightarrow> string list" where
  "matched_groups request = map fst (filter (\<lambda>g. any_word_in (snd g) request) keyword_groups)"

definition first_seen :: "'a list \<Rightarrow> 'a list" where
  "first_seen xs = rev (remdups (rev xs))"

definition spec_classify :: "string \<Rightarrow> bool \<Rightarrow> string list" where
  "spec_classify request context =
     (let contributed = matched_groups request @ (if context then [''recommendation''] else [])
      in first_seen (contributed @ (if contributed \<noteq> [] then [''loyalty''] else [])))"

section \<open>The agent contract (\<open>BaseAgent\<close>)\<close>

text \<open>
  \<open>_execute\<close> is abstract in \<open>BaseAgent\<close>, so an agent is its name, its \<open>_execute\<close> as a
  function of the state (returning the result, or the exception it raises), and whether
  \<open>_execute\<close> gives control back to the event loop before it finishes on that state
  (it awaits \<open>asyncio.sleep\<close>). A result is a dictionary, as the contract declares, or a
  list of dictionaries, which one path of the inventory agent returns.
\<close>

datatype result = RDict pydict | RList "pydict list"

fun result_value :: "result \<Rightarrow> pyval" where
  "result_value (RDict d) = PDict d"
| "result_value (RList ds) = PList (map PDict ds)"

text \<open>Truth value of a result (\<open>if result:\<close>).\<close>

fun result_nonempty :: "result \<Rightarrow> bool" where
  "result_nonempty (RDict d) = (d \<noteq> [])"
| "result_nonempty (RList ds) = (ds \<noteq> [])"

record agent =
  agent_name :: string
  execute :: "agent_state \<Rightarrow> py_error + result"
  suspends :: "agent_state \<Rightarrow> bool"

text \<open>
  \<open>BaseAgent.run\<close> in its two halves. \<open>run_start\<close> is the code up to the call of
  \<open>_execute\<close>: it appends the entry with status \<open>processing\<close>. \<open>run_finish\<close> is the
  code after \<open>_execute\<close> has returned or raised: it updates \<open>state["agent_calls"][-1]\<close>,
  the entry that is last in the log at that moment, and returns the result, or \<open>{}\<close>
  after an exception.
\<close>

definition run_start :: "agent \<Rightarrow> agent_state \<Rightarrow> agent_state" where
  "run_start a st =
     st\<lparr> agent_calls := agent_calls st @
            [[(''agent'', PStr (agent_name a)), (''status'', PStr ''processing'')]] \<rparr>"

definition update_last :: "pydict list \<Rightarrow> pydict \<Rightarrow> pydict list" where
  "update_last entries kvs =
     (if entries = [] then [] else butlast entries @ [dict_update (last entries) kvs])"

definition run_finish :: "py_error + result \<Rightarrow> agent_state \<Rightarrow> agent_state \<times> result" where
  "run_finish outcome st =
     (case outcome of
        Inr r \<Rightarrow>
          (st\<lparr> agent_calls := update_last (agent_calls st)
                   [(''status'', PStr ''success''), (''result'', result_value r)] \<rparr>, r)
      | Inl e \<Rightarrow>
          (st\<lparr> agent_calls := update_last (agent_calls st)
                   [(''status'', PStr ''failed''), (''error'', PStr (error_text e))] \<rparr>, RDict []))"

text \<open>\<open>run\<close> of an agent that never gives control back: both halves in one go.\<close>

definition run :: "agent \<Rightarrow> agent_state \<Rightarrow> agent_state \<times> result" where
  "run a st = (let st1 = run_start a st in run_finish (execute a st1) st1)"

section \<open>The payment agent and its failover protocol\<close>

text \<open>
  The two sources of randomness are inputs: \<open>random_draws rng i\<close> is the value of the
  \<open>i\<close>-th call of \<open>random.random()\<close> (one per attempt, counted from 0), and
  \<open>randint_value rng\<close> the value of \<open>random.randint(100000, 999999)\<close>. The loop-time
  stamp of a retry-history entry is left out.
\<close>

record rng =
  random_draws :: "nat \<Rightarrow> rat"
  randint_value :: int

record gateway =
  gateway_name :: string
  success_rate :: rat
  timeout :: rat

definition gateways :: "gateway list" where
  "gateways =
     [\<lparr>gateway_name = ''Razorpay'', success_rate = 3 / 10, timeout = 12 / 10\<rparr>,
      \<lparr>gateway_name = ''PayU'', success_rate = 3 / 10, timeout = 8 / 10\<rparr>,
      \<lparr>gateway_name = ''UPI Direct'', success_rate = 1, timeout = 7 / 10\<rparr>]"

text \<open>\<open>_attempt_payment\<close>, for the attempt number \<open>i\<close>.\<close>

definition attempt_payment :: "rng \<Rightarrow> nat \<Rightarrow> gateway \<Rightarrow> bool" where
  "attempt_payment r i g = (random_draws r i < success_rate g)"

definition history_entry :: "gateway \<Rightarrow> bool \<Rightarrow> pydict" where
  "history_entry g success =
     [(''gateway'', PStr (gateway_name g)),
      (''status'', PStr (if success then ''success'' else ''failed''))]"

text \<open>
  The \<open>for\<close> loop of \<open>_process_payment_with_retry\<close>: \<open>gs\<close> are the gateways still to
  try, \<open>retry_history\<close> the entries appended so far, \<open>all_gateways\<close> is \<open>self.gateways\<close>.
\<close>

fun retry_loop :: "rng \<Rightarrow> gateway list \<Rightarrow> pyval \<Rightarrow> gateway list \<Rightarrow> pydict list \<Rightarrow> pydict" where
  "retry_loop r all_gateways amount [] retry_history =
     [(''success'', PBool False), (''status'', PStr ''failed''), (''amount'', amount),
      (''retry_history'', PList (map PDict retry_history)),
      (''message'', PStr ''All payment methods failed. Please try again later.'')]"
| "retry_loop r all_gateways amount (g # gs) retry_history =
     (let success = attempt_payment r (length retry_history) g;
          retry_history' = retry_history @ [history_entry g success]
      in if success then
           [(''success'', PBool True), (''status'', PStr ''completed''), (''amount'', amount),
            (''gateway'', PStr (gateway_name g)),
            (''transaction_id'', PStr (''TXN'' @ show_int (randint_value r))),
            (''retry_history'', PList (map PDict retry_history')),
            (''total_time'',
               PStr (format_1f (sum_list (map timeout (take (length retry_history') all_gateways)))
                     @ ''s'')),
            (''message'', PStr (''Payment successful via '' @ gateway_name g @ ''!''))]
         else retry_loop r all_gateways amount gs retry_history')"

definition process_payment_with_retry :: "rng \<Rightarrow> gateway list \<Rightarrow> pyval \<Rightarrow> pydict" where
  "process_payment_with_retry r gws amount = retry_loop r gws amount gws []"

definition calculate_total :: "cart_item list \<Rightarrow> pyval" where
  "calculate_total crt =
     (if crt = [] then PFloat 3950
      else PInt (foldl (\<lambda>total item. total + 2500 * quantity item) 0 crt))"

text \<open>The test \<open>"pay" in request or "checkout" in request or "purchase" in request\<close>.\<close>

definition payment_requested :: "agent_state \<Rightarrow> bool" where
  "payment_requested st =
     (let request = lower (current_request st)
      in has_substr ''pay'' request \<or> has_substr ''checkout'' request
         \<or> has_substr ''purchase'' request)"

definition payment_execute :: "rng \<Rightarrow> gateway list \<Rightarrow> agent_state \<Rightarrow> pydict" where
  "payment_execute r gws st =
     (let total_amount = calculate_total (cart st)
      in if payment_requested st then process_payment_with_retry r gws total_amount
         else [(''status'', PStr ''pending''), (''amount'', total_amount),
               (''message'', PStr ''Ready to process payment'')])"

text \<open>
  The payment agent awaits \<open>asyncio.sleep\<close> in every attempt and nowhere else, so it gives
  control back exactly when it enters the failover loop with a gateway to try.
\<close>

definition payment_agent_of :: "rng \<Rightarrow> gateway list \<Rightarrow> agent" where
  "payment_agent_of r gws =
     \<lparr> agent_name = ''Payment Agent'',
       execute = (\<lambda>st. Inr (RDict (payment_execute r gws st))),
       suspends = (\<lambda>st. payment_requested st \<and> gws \<noteq> []) \<rparr>"

section \<open>The other five agents\<close>

text \<open>
  The data files (\<open>data/products.json\<close>, \<open>data/stores.json\<close>, \<open>data/customers.json\<close>) are
  not part of the sources, so the tables the agents load from them are parameters. A
  product and a store carry the fields the code reads, with the types of
  \<open>models/schemas.py\<close> and of the fallback tables; a customer is a dictionary, since the
  loyalty agent computes with whatever \<open>loyalty_points\<close> holds.
\<close>

record product =
  p_id :: string
  p_name :: string
  p_price :: pyval
  p_category :: string
  p_tags :: "string list"
  p_match_score :: "rat option"

record store =
  store_name :: string
  store_distance :: string

record data_files =
  rec_products :: "product list"
  inv_products :: "(string \<times> product) list"
  stores :: "store list"
  customers :: "(string \<times> pydict) list"

definition product_dict :: "product \<Rightarrow> pydict" where
  "product_dict p =
     [(''product_id'', PStr (p_id p)), (''name'', PStr (p_name p)), (''price'', p_price p),
      (''category'', PStr (p_category p)), (''tags'', PList (map PStr (p_tags p)))]
     @ (case p_match_score p of None \<Rightarrow> [] | Some m \<Rightarrow> [(''match_score'', PFloat m)])"

text \<open>\<open>sum(2500 * item.get("quantity", 1) for item in cart)\<close>.\<close>

definition cart_value :: "cart_item list \<Rightarrow> int" where
  "cart_value crt = sum_list (map (\<lambda>item. 2500 * quantity item) crt)"

subsection \<open>Recommendation agent\<close>

definition get_matching_products :: "product list \<Rightarrow> string list \<Rightarrow> product list" where
  "get_matching_products products liked_product_ids =
     (let matched = filter (\<lambda>p. list_ex (\<lambda>pid. starts_with pid ''VH'') liked_product_ids
                                \<and> p_category p \<in> set [''Ties'', ''Belts'', ''Trousers'']) products
      in if matched \<noteq> [] then matched else take 3 products)"

definition get_complementary_products :: "product list \<Rightarrow> cart_item list \<Rightarrow> product list" where
  "get_complementary_products products crt = get_matching_products products (map product_id crt)"

text \<open>\<open>sorted(..., reverse=True)\<close> is stable: products of equal score keep their order.\<close>

definition get_trending_products :: "product list \<Rightarrow> product list" where
  "get_trending_products products =
     sort_key (\<lambda>p. - (case p_match_score p of None \<Rightarrow> 0 | Some m \<Rightarrow> m)) products"

definition generate_reasoning :: "product \<Rightarrow> agent_state \<Rightarrow> string" where
  "generate_reasoning p st =
     (if liked_products st \<noteq> [] then ''Pairs perfectly with your liked items''
      else if cart st \<noteq> [] then ''Completes your look''
      else ''Popular choice for '' @ join '', '' (take 2 (p_tags p)))"

definition recommendation_execute :: "product list \<Rightarrow> agent_state \<Rightarrow> pydict" where
  "recommendation_execute products st =
     (let recommendations =
            (if liked_products st \<noteq> [] then get_matching_products products (liked_products st)
             else if cart st \<noteq> [] then get_complementary_products products (cart st)
             else get_trending_products products);
          with_reasoning =
            map (\<lambda>p. dict_update (product_dict p) [(''reasoning'', PStr (generate_reasoning p st))])
                recommendations
      in [(''recommendations'', PList (map PDict (take 5 with_reasoning))),
          (''total_found'', PInt (int (length recommendations)))])"

subsection \<open>Inventory agent\<close>

definition find_nearby_stores :: "store list \<Rightarrow> string \<Rightarrow> pydict list" where
  "find_nearby_stores sts loc =
     map (\<lambda>s. [(''name'', PStr (store_name s)), (''distance'', PStr (store_distance s)),
                (''stock_available'', PBool True), (''stock_count'', PInt 3)]) sts"

definition find_alternative_products :: "(string \<times> product) list \<Rightarrow> string \<Rightarrow> pydict list" where
  "find_alternative_products prods pid =
     take 3 (map (\<lambda>kp. [(''product_id'', PStr (fst kp)), (''name'', PStr (p_name (snd kp))),
                         (''price'', p_price (snd kp)), (''similarity'', PFloat (85 / 100))])
                 (filter (\<lambda>kp. fst kp \<noteq> pid) prods))"

definition check_stock :: "data_files \<Rightarrow> string \<Rightarrow> pyval \<Rightarrow> string \<Rightarrow> pydict" where
  "check_stock d pid sz loc =
     (if pid = ''VH001'' then
        [(''available'', PBool True), (''product_id'', PStr pid), (''size'', sz),
         (''store'', PStr ''Bandra Store''), (''stock'', PInt 3), (''distance'', PStr ''2km''),
         (''can_reserve'', PBool True)]
      else if pid = ''VH999'' \<or> has_substr ''out'' (lower pid) then
        [(''available'', PBool False), (''product_id'', PStr pid), (''size'', sz),
         (''message'', PStr (''Size '' @ py_str sz @ '' unavailable at your location'')),
         (''nearby_stores'', PList (map PDict (take 2 (find_nearby_stores (stores d) loc)))),
         (''alternatives'', PList (map PDict (take 2 (find_alternative_products (inv_products d) pid)))),
         (''restock_date'', PStr ''3 days'')]
      else
        [(''available'', PBool True), (''product_id'', PStr pid), (''size'', sz),
         (''store'', PStr ''Bandra Store''), (''stock'', PInt 5), (''distance'', PStr ''2km'')])"

text \<open>\<open>item.get("size", "40")\<close>: the key is always present, with a string or \<open>None\<close>.\<close>

definition size_value :: "cart_item \<Rightarrow> pyval" where
  "size_value item = (case item_size item of None \<Rightarrow> PNone | Some s \<Rightarrow> PStr s)"

definition check_cart_availability :: "data_files \<Rightarrow> cart_item list \<Rightarrow> string \<Rightarrow> pydict" where
  "check_cart_availability d crt loc =
     (let unavailable_items =
            map product_id
              (filter (\<lambda>item. \<not> truthy (dict_get (check_stock d (product_id item) (size_value item) loc)
                                                    ''available'' PNone)) crt);
          all_available = (unavailable_items = [])
      in [(''all_available'', PBool all_available),
          (''unavailable_items'', PList (map PStr unavailable_items)),
          (''message'', PStr (if all_available then ''All items available''
                              else ''Some items unavailable''))])"

definition inventory_execute :: "data_files \<Rightarrow> agent_state \<Rightarrow> result" where
  "inventory_execute d st =
     (let request = lower (current_request st)
      in if has_substr ''stock'' request \<or> has_substr ''available'' request then
           (case cart st of
              [] \<Rightarrow> RDict (check_stock d ''VH001'' (PStr ''40'') (location st))
            | item # _ \<Rightarrow> RDict (check_stock d (product_id item) (size_value item) (location st)))
         else if has_substr ''store'' request \<or> has_substr ''nearby'' request then
           RList (find_nearby_stores (stores d) (location st))
         else if cart st \<noteq> [] then RDict (check_cart_availability d (cart st) (location st))
         else RDict [(''available'', PBool True), (''message'', PStr ''All items in stock'')])"

subsection \<open>Fulfillment agent\<close>

definition delivery_options :: "pydict list" where
  "delivery_options =
     [[(''type'', PStr ''express''), (''timeline'', PStr ''Tomorrow 10 AM''), (''cost'', PInt 99),
       (''available'', PBool True)],
      [(''type'', PStr ''standard''), (''timeline'', PStr ''2-3 days''), (''cost'', PInt 0),
       (''available'', PBool True)],
      [(''type'', PStr ''store_pickup''), (''timeline'', PStr ''Today 6 PM''), (''cost'', PInt 0),
       (''available'', PBool True), (''store'', PStr ''Bandra Store'')]]"

definition fulfillment_execute :: "agent_state \<Rightarrow> pydict" where
  "fulfillment_execute st =
     (if cart st = [] then
        [(''status'', PStr ''no_order''), (''message'', PStr ''No items to deliver'')]
      else
        (let cv = cart_value (cart st)
         in [(''status'', PStr ''available''),
             (''delivery_options'', PList (map PDict delivery_options)),
             (''recommended'', PStr (if cv > 4000 then ''standard'' else ''express'')),
             (''timeline'', PStr (if cv > 4000 then ''2-3 days'' else ''Tomorrow'')),
             (''message'', PStr (if cv > 4000 then ''Free delivery available!''
                                 else ''Express delivery available''))]))"

subsection \<open>Loyalty agent\<close>

text \<open>
  Arithmetic on numbers as Python does it: a boolean counts as an integer, the result is
  a float as soon as one operand is, and an operand that is no number raises
  \<open>TypeError\<close>.
\<close>

fun num_of :: "pyval \<Rightarrow> rat option" where
  "num_of (PInt i) = Some (of_int i)"
| "num_of (PFloat r) = Some r"
| "num_of (PBool b) = Some (if b then 1 else 0)"
| "num_of _ = None"

fun int_of :: "pyval \<Rightarrow> int option" where
  "int_of (PInt i) = Some i"
| "int_of (PBool b) = Some (if b then 1 else 0)"
| "int_of _ = None"

fun type_name :: "pyval \<Rightarrow> string" where
  "type_name PNone = ''NoneType''"
| "type_name (PBool _) = ''bool''"
| "type_name (PInt _) = ''int''"
| "type_name (PFloat _) = ''float''"
| "type_name (PStr _) = ''str''"
| "type_name (PList _) = ''list''"
| "type_name (PDict _) = ''dict''"

definition py_sub :: "pyval \<Rightarrow> pyval \<Rightarrow> py_error + pyval" where
  "py_sub a b =
     (case (int_of a, int_of b) of
        (Some i, Some j) \<Rightarrow> Inr (PInt (i - j))
      | _ \<Rightarrow>
        (case (num_of a, num_of b) of
           (Some x, Some y) \<Rightarrow> Inr (PFloat (x - y))
         | _ \<Rightarrow> Inl (TypeError (''unsupported operand type(s) for -: '' @ [CHR 0x27]
                     @ type_name a @ [CHR 0x27] @ '' and '' @ [CHR 0x27] @ type_name b @ [CHR 0x27]))))"

text \<open>\<open>min(a, x)\<close> for a float \<open>x\<close>: \<open>x\<close> if \<open>x < a\<close>, else \<open>a\<close>; the comparison raises when
  \<open>a\<close> is no number.\<close>

definition min_with_float :: "pyval \<Rightarrow> rat \<Rightarrow> py_error + pyval" where
  "min_with_float a x =
     (case num_of a of
        None \<Rightarrow> Inl (TypeError ([CHR 0x27] @ ''<'' @ [CHR 0x27]
                  @ '' not supported between instances of '' @ [CHR 0x27] @ ''float'' @ [CHR 0x27]
                  @ '' and '' @ [CHR 0x27] @ type_name a @ [CHR 0x27]))
      | Some y \<Rightarrow> Inr (if x < y then PFloat x else a))"

definition rupee :: string where
  "rupee = [CHR 0xE2, CHR 0x82, CHR 0xB9]"

definition loyalty_execute :: "(string \<times> pydict) list \<Rightarrow> agent_state \<Rightarrow> py_error + pydict" where
  "loyalty_execute custs st =
     (let customer = (case map_of custs (customer_id st) of None \<Rightarrow> [] | Some c \<Rightarrow> c);
          points_available = dict_get customer ''loyalty_points'' (PInt 500);
          cv = cart_value (cart st);
          offers = (if length (cart st) \<ge> 3 then [''Bundle Offer: 20% off on 3+ items'']
                    else if length (cart st) \<ge> 2 then [''Multi-buy: 10% off on 2+ items'']
                    else []);
          discount_amount = (if length (cart st) \<ge> 3 then PFloat (of_int cv * (20 / 100))
                             else if length (cart st) \<ge> 2 then PFloat (of_int cv * (10 / 100))
                             else PInt 0);
          points_value = points_available
      in case min_with_float points_value (of_int cv * (1 / 10)) of
           Inl e \<Rightarrow> Inl e
         | Inr m \<Rightarrow>
           (case py_sub (PInt cv) discount_amount of
              Inl e \<Rightarrow> Inl e
            | Inr t \<Rightarrow>
              (case py_sub t m of
                 Inl e \<Rightarrow> Inl e
               | Inr final_price \<Rightarrow>
                 (case py_sub (PInt cv) final_price of
                    Inl e \<Rightarrow> Inl e
                  | Inr savings \<Rightarrow>
                    Inr [(''status'', PStr ''calculated''),
                         (''points_available'', points_available),
                         (''points_value'', points_value),
                         (''offers'', PList (map PStr offers)),
                         (''discount_amount'', discount_amount),
                         (''original_price'', PInt cv),
                         (''final_price'', final_price),
                         (''savings'', savings),
                         (''message'', PStr (''You'' @ [CHR 0x27] @ ''re saving '' @ rupee
                            @ format_0f (case num_of savings of None \<Rightarrow> 0 | Some x \<Rightarrow> x)
                            @ ''!''))]))))"

subsection \<open>Support agent\<close>

definition handle_return_request :: pydict where
  "handle_return_request =
     [(''status'', PStr ''eligible''), (''return_window'', PStr ''30 days''),
      (''conditions'', PList [PStr ''Unused with tags'', PStr ''Original packaging'']),
      (''refund_timeline'', PStr ''5-7 days''), (''pickup_available'', PBool True),
      (''message'', PStr ''You can return this item within 30 days. Pickup can be scheduled.'')]"

definition handle_exchange_request :: pydict where
  "handle_exchange_request =
     [(''status'', PStr ''eligible''),
      (''exchange_options'',
         PList [PStr ''Different size'', PStr ''Different color'', PStr ''Different product'']),
      (''timeline'', PStr ''3-5 days for exchange''), (''cost'', PStr ''Free exchange''),
      (''message'', PStr ''We can arrange an exchange. What would you like instead?'')]"

definition provide_general_help :: pydict where
  "provide_general_help =
     [(''status'', PStr ''available''),
      (''help_topics'',
         PList [PStr ''Order tracking'', PStr ''Returns & Exchanges'', PStr ''Payment issues'',
                PStr ''Product questions'']),
      (''contact'',
         PDict [(''phone'', PStr ''1800-XXX-XXXX''), (''email'', PStr ''support@vanheusen.com''),
                (''chat'', PStr ''Available 24/7'')]),
      (''message'', PStr ''I can help you with orders, returns, or any questions!'')]"

definition support_execute :: "agent_state \<Rightarrow> pydict" where
  "support_execute st =
     (let request = lower (current_request st)
      in if has_substr ''return'' request \<or> has_substr ''refund'' request then handle_return_request
         else if has_substr ''exchange'' request \<or> has_substr ''replace'' request
           then handle_exchange_request
         else if has_substr ''help'' request \<or> has_substr ''issue'' request
           then provide_general_help
         else [(''status'', PStr ''ready''),
               (''message'', PStr (''I'' @ [CHR 0x27]
                  @ ''m here to help! You can ask about returns, exchanges, or any issues.''))])"

subsection \<open>The six agent instances\<close>

record registry =
  recommendation_agent :: agent
  inventory_agent :: agent
  payment_agent :: agent
  fulfillment_agent :: agent
  loyalty_agent :: agent
  support_agent :: agent

definition agents :: "data_files \<Rightarrow> rng \<Rightarrow> registry" where
  "agents d r =
     \<lparr> recommendation_agent =
         \<lparr> agent_name = ''Recommendation Agent'',
           execute = (\<lambda>st. Inr (RDict (recommendation_execute (rec_products d) st))),
           suspends = (\<lambda>st. False) \<rparr>,
       inventory_agent =
         \<lparr> agent_name = ''Inventory Agent'',
           execute = (\<lambda>st. Inr (inventory_execute d st)),
           suspends = (\<lambda>st. False) \<rparr>,
       payment_agent = payment_agent_of r gateways,
       fulfillment_agent =
         \<lparr> agent_name = ''Fulfillment Agent'',
           execute = (\<lambda>st. Inr (RDict (fulfillment_execute st))),
           suspends = (\<lambda>st. False) \<rparr>,
       loyalty_agent =
         \<lparr> agent_name = ''Loyalty Agent'',
           execute = (\<lambda>st. map_sum id RDict (loyalty_execute (customers d) st)),
           suspends = (\<lambda>st. False) \<rparr>,
       support_agent =
         \<lparr> agent_name = ''Support Agent'',
           execute = (\<lambda>st. Inr (RDict (support_execute st))),
           suspends = (\<lambda>st. False) \<rparr> \<rparr>"

text \<open>The fallback tables the agents fall back on when a data file cannot be read.\<close>

definition fallback_data :: data_files where
  "fallback_data =
     \<lparr> rec_products =
         [\<lparr>p_id = ''VH001'', p_name = ''Classic Blue Formal Shirt'', p_price = PInt 2500,
           p_category = ''Formal Shirts'', p_tags = [''wedding'', ''formal'', ''office''],
           p_match_score = Some (95 / 100)\<rparr>,
          \<lparr>p_id = ''VH002'', p_name = ''Navy Blue Silk Tie'', p_price = PInt 800,
           p_category = ''Ties'', p_tags = [''formal'', ''wedding''],
           p_match_score = Some (85 / 100)\<rparr>,
          \<lparr>p_id = ''VH003'', p_name = ''Brown Leather Belt'', p_price = PInt 1200,
           p_category = ''Belts'', p_tags = [''formal'', ''casual''],
           p_match_score = Some (78 / 100)\<rparr>],
       inv_products = [],
       stores =
         [\<lparr>store_name = ''Bandra Store'', store_distance = ''2km''\<rparr>,
          \<lparr>store_name = ''Powai Store'', store_distance = ''5km''\<rparr>,
          \<lparr>store_name = ''Andheri Store'', store_distance = ''7km''\<rparr>],
       customers =
         [(''CUST001'', [(''customer_id'', PStr ''CUST001''), (''name'', PStr ''Rahul Sharma''),
                         (''loyalty_points'', PInt 500), (''tier'', PStr ''Gold'')])] \<rparr>"

section \<open>The dispatcher (\<open>call_agents_node\<close>)\<close>

text \<open>
  \<open>asyncio.gather\<close> wraps the coroutines in tasks in the order of its arguments, and the
  event loop starts them in that order. A task runs until it gives control back: a task
  whose \<open>_execute\<close> never awaits a sleep runs \<open>BaseAgent.run\<close> from its first line to its
  \<open>return\<close> before the next task starts; a task that awaits a sleep stops there, and is
  resumed only after every later task has had its first turn. \<open>first_turns\<close> is that first
  round over the tasks, \<open>resume_turns\<close> finishes the tasks left pending. Of the six
  agents only the payment agent ever awaits a sleep, so at most one task is pending and
  the order in which pending tasks resume (here: launch order) is never exercised.
  \<open>gather\<close> returns the results in the order of the tasks.
\<close>

datatype task = Done result | Pending "py_error + result"

fun first_turns :: "agent list \<Rightarrow> agent_state \<Rightarrow> agent_state \<times> task list" where
  "first_turns [] st = (st, [])"
| "first_turns (a # as) st =
     (let st1 = run_start a st;
          outcome = execute a st1
      in if suspends a st1 then
           (let (st2, ts) = first_turns as st1 in (st2, Pending outcome # ts))
         else
           (let (st2, r) = run_finish outcome st1;
                (st3, ts) = first_turns as st2
            in (st3, Done r # ts)))"

fun resume_turns :: "task list \<Rightarrow> agent_state \<Rightarrow> agent_state \<times> result list" where
  "resume_turns [] st = (st, [])"
| "resume_turns (Done r # ts) st =
     (let (st1, rs) = resume_turns ts st in (st1, r # rs))"
| "resume_turns (Pending outcome # ts) st =
     (let (st1, r) = run_finish outcome st;
          (st2, rs) = resume_turns ts st1
      in (st2, r # rs))"

definition gather :: "agent list \<Rightarrow> agent_state \<Rightarrow> agent_state \<times> result list" where
  "gather tasks st = (let (st1, ts) = first_turns tasks st in resume_turns ts st1)"

text \<open>
  \<open>state.update(result)\<close>. A dictionary stores each of its keys. A list is read as a
  sequence of key-value pairs: iterating an element that is a dictionary yields its keys,
  so an element with exactly two keys stores the second key under the first, and any
  other element raises \<open>ValueError\<close>. No agent returns a key that names one of the typed
  fields of the state; such a key is kept in \<open>slots\<close> like any other.
\<close>

definition store_all :: "(string \<rightharpoonup> pyval) \<Rightarrow> pydict \<Rightarrow> (string \<rightharpoonup> pyval)" where
  "store_all m kvs = foldl (\<lambda>acc kv. acc(fst kv \<mapsto> snd kv)) m kvs"

fun store_pairs :: "nat \<Rightarrow> (string \<rightharpoonup> pyval) \<Rightarrow> pydict list \<Rightarrow> py_error + (string \<rightharpoonup> pyval)" where
  "store_pairs i m [] = Inr m"
| "store_pairs i m (d # ds) =
     (case d of
        [kv1, kv2] \<Rightarrow> store_pairs (Suc i) (m(fst kv1 \<mapsto> PStr (fst kv2))) ds
      | _ \<Rightarrow> Inl (ValueError (''dictionary update sequence element #'' @ show_nat i
                 @ '' has length '' @ show_nat (length d) @ ''; 2 is required'')))"

fun state_update :: "agent_state \<Rightarrow> result \<Rightarrow> py_error + agent_state" where
  "state_update st (RDict d) = Inr (st\<lparr>slots := store_all (slots st) d\<rparr>)"
| "state_update st (RList ds) =
     (case store_pairs 0 (slots st) ds of
        Inl e \<Rightarrow> Inl e
      | Inr m \<Rightarrow> Inr (st\<lparr>slots := m\<rparr>))"

text \<open>The loop \<open>for result in results: if result: state.update(result)\<close>.\<close>

fun merge_results :: "agent_state \<Rightarrow> result list \<Rightarrow> py_error + agent_state" where
  "merge_results st [] = Inr st"
| "merge_results st (r # rs) =
     (if result_nonempty r then
        (case state_update st r of Inl e \<Rightarrow> Inl e | Inr st1 \<Rightarrow> merge_results st1 rs)
      else merge_results st rs)"

definition selected_tasks :: "registry \<Rightarrow> string list \<Rightarrow> agent list" where
  "selected_tasks reg needed =
     (if ''recommendation'' \<in> set needed then [recommendation_agent reg] else [])
     @ (if ''inventory'' \<in> set needed then [inventory_agent reg] else [])
     @ (if ''payment'' \<in> set needed then [payment_agent reg] else [])
     @ (if ''fulfillment'' \<in> set needed then [fulfillment_agent reg] else [])
     @ (if ''loyalty'' \<in> set needed then [loyalty_agent reg] else [])
     @ (if ''support'' \<in> set needed then [support_agent reg] else [])"

definition call_agents_node :: "registry \<Rightarrow> agent_state \<Rightarrow> py_error + agent_state" where
  "call_agents_node reg st =
     (let tasks = selected_tasks reg (agents_needed st)
      in if tasks \<noteq> [] then
           (let (st1, results) = gather tasks st in merge_results st1 results)
         else Inr st)"

section \<open>The response synthesizer and the simple response\<close>

text \<open>Sequencing of computations that may raise.\<close>

definition and_then :: "py_error + 'a \<Rightarrow> ('a \<Rightarrow> py_error + 'b) \<Rightarrow> py_error + 'b" where
  "and_then m f = (case m of Inl e \<Rightarrow> Inl e | Inr x \<Rightarrow> f x)"

text \<open>
  The synthesizer reads the result slots, which hold whatever was stored there, so each
  access is modelled with the exception it raises on a value of the wrong shape:
  \<open>v[k]\<close>, \<open>v.get(k, default)\<close>, \<open>len(v)\<close>, \<open>v[:3]\<close> and \<open>v[0]\<close>. The length of a string
  is counted in bytes.
\<close>

definition not_subscriptable :: "pyval \<Rightarrow> py_error" where
  "not_subscriptable v =
     TypeError ([CHR 0x27] @ type_name v @ [CHR 0x27] @ '' object is not subscriptable'')"

fun subscript_key :: "pyval \<Rightarrow> string \<Rightarrow> py_error + pyval" where
  "subscript_key (PDict d) k =
     (case map_of d k of None \<Rightarrow> Inl (KeyError ([CHR 0x27] @ k @ [CHR 0x27])) | Some v \<Rightarrow> Inr v)"
| "subscript_key (PList xs) k = Inl (TypeError ''list indices must be integers or slices, not str'')"
| "subscript_key (PStr s) k =
     Inl (TypeError (''string indices must be integers, not '' @ [CHR 0x27] @ ''str'' @ [CHR 0x27]))"
| "subscript_key v k = Inl (not_subscriptable v)"

fun get_method :: "pyval \<Rightarrow> string \<Rightarrow> pyval \<Rightarrow> py_error + pyval" where
  "get_method (PDict d) k dflt = Inr (dict_get d k dflt)"
| "get_method v k dflt =
     Inl (AttributeError ([CHR 0x27] @ type_name v @ [CHR 0x27] @ '' object has no attribute ''
            @ [CHR 0x27] @ ''get'' @ [CHR 0x27]))"

fun py_len :: "pyval \<Rightarrow> py_error + nat" where
  "py_len (PList xs) = Inr (length xs)"
| "py_len (PDict d) = Inr (length d)"
| "py_len (PStr s) = Inr (length s)"
| "py_len v = Inl (TypeError (''object of type '' @ [CHR 0x27] @ type_name v @ [CHR 0x27]
                    @ '' has no len()''))"

fun first_three :: "pyval \<Rightarrow> py_error + pyval list" where
  "first_three (PList xs) = Inr (take 3 xs)"
| "first_three (PStr s) = Inr (map (\<lambda>c. PStr [c]) (take 3 s))"
| "first_three (PDict d) = Inl (TypeError (''unhashable type: '' @ [CHR 0x27] @ ''slice'' @ [CHR 0x27]))"
| "first_three v = Inl (not_subscriptable v)"

fun subscript_zero :: "pyval \<Rightarrow> py_error + pyval" where
  "subscript_zero (PList xs) =
     (case xs of [] \<Rightarrow> Inl (IndexError ''list index out of range'') | x # _ \<Rightarrow> Inr x)"
| "subscript_zero (PStr s) =
     (case s of [] \<Rightarrow> Inl (IndexError ''string index out of range'') | c # _ \<Rightarrow> Inr (PStr [c]))"
| "subscript_zero (PDict d) = Inl (KeyError ''0'')"
| "subscript_zero v = Inl (not_subscriptable v)"

text \<open>
  The literals of the synthesizer, byte for byte as the source file holds them (its
  non-ASCII characters are stored doubly encoded).
\<close>

definition greeting_text :: string where
  "greeting_text = ''Hi! I'' @ [CHR 0x27] @ ''m your AI shopping assistant. How can I help you today?''"

definition fallback_text :: string where
  "fallback_text = ''I'' @ [CHR 0x27]
     @ ''m here to help! You can ask me about products, check availability, or place an order.''"

definition bullet_mark :: string where
  "bullet_mark = [CHR 0xC3, CHR 0xA2, CHR 0xE2, CHR 0x82, CHR 0xAC, CHR 0xC2, CHR 0xA2]"

definition rupee_mark :: string where
  "rupee_mark = [CHR 0xC3, CHR 0xA2, CHR 0xE2, CHR 0x80, CHR 0x9A, CHR 0xC2, CHR 0xB9]"

definition check_mark :: string where
  "check_mark = [CHR 0xC3, CHR 0xA2, CHR 0xC5, CHR 0x93, CHR 0xE2, CHR 0x80, CHR 0x9C]"

definition gem_mark :: string where
  "gem_mark = [CHR 0xC3, CHR 0xB0, CHR 0xC5, CHR 0xB8, CHR 0xE2, CHR 0x80, CHR 0x99, CHR 0xC5, CHR 0xBD]"

definition gift_mark :: string where
  "gift_mark = [CHR 0xC3, CHR 0xB0, CHR 0xC5, CHR 0xB8, CHR 0xC5, CHR 0xBD]"

definition done_mark :: string where
  "done_mark = [CHR 0xC3, CHR 0xA2, CHR 0xC5, CHR 0x93, CHR 0xE2, CHR 0x80, CHR 0xA6]"

definition warning_mark :: string where
  "warning_mark = [CHR 0xC3, CHR 0xA2, CHR 0xC5, CHR 0xA1, CHR 0xC2, CHR 0xA0, CHR 0xC3, CHR 0xAF,
                   CHR 0xC2, CHR 0xB8]"

definition parcel_mark :: string where
  "parcel_mark = [CHR 0xC3, CHR 0xB0, CHR 0xC5, CHR 0xB8, CHR 0xE2, CHR 0x80, CHR 0x9C, CHR 0xC2, CHR 0xA6]"

text \<open>One part of the response per recommendation: \<open>name\<close> and \<open>price\<close> of the item.\<close>

definition item_line :: "pyval \<Rightarrow> py_error + string" where
  "item_line rec =
     and_then (subscript_key rec ''name'') (\<lambda>name.
     and_then (subscript_key rec ''price'') (\<lambda>price.
       Inr (bullet_mark @ '' '' @ py_str name @ '' - '' @ rupee_mark @ py_str price)))"

fun item_lines :: "pyval list \<Rightarrow> py_error + string list" where
  "item_lines [] = Inr []"
| "item_lines (rec # recs) =
     and_then (item_line rec) (\<lambda>l. and_then (item_lines recs) (\<lambda>ls. Inr (l # ls)))"

definition recommendations_header :: "nat \<Rightarrow> string" where
  "recommendations_header n =
     ''Based on your preferences, I found '' @ show_nat n @ '' items you might love:''"

definition recommendations_section :: "agent_state \<Rightarrow> py_error + string list" where
  "recommendations_section st =
     (let recs = state_get st ''recommendations''
      in if truthy recs then
           and_then (py_len recs) (\<lambda>n.
           and_then (first_three recs) (\<lambda>top.
           and_then (item_lines top) (\<lambda>ls. Inr (recommendations_header n # ls))))
         else Inr [])"

definition inventory_section :: "agent_state \<Rightarrow> py_error + string list" where
  "inventory_section st =
     (let inv = state_get st ''inventory_status''
      in if truthy inv then
           and_then (get_method inv ''available'' PNone) (\<lambda>available.
             if truthy available then
               and_then (subscript_key inv ''store'') (\<lambda>store.
               and_then (subscript_key inv ''stock'') (\<lambda>stock.
                 Inr [check_mark @ '' Available at '' @ py_str store @ '' ('' @ py_str stock
                      @ '' in stock)'']))
             else
               and_then (get_method inv ''alternative'' (PStr ''Check other stores'')) (\<lambda>alt.
                 Inr [''Currently unavailable. Alternative: '' @ py_str alt]))
         else Inr [])"

definition loyalty_section :: "agent_state \<Rightarrow> py_error + string list" where
  "loyalty_section st =
     (let loyalty = state_get st ''loyalty_info''
      in if truthy loyalty then
           and_then (get_method loyalty ''points_available'' PNone) (\<lambda>pts.
           and_then
             (if truthy pts then
                and_then (subscript_key loyalty ''points_available'') (\<lambda>p.
                and_then (subscript_key loyalty ''value'') (\<lambda>v.
                  Inr [gem_mark @ '' You have '' @ py_str p @ '' loyalty points ('' @ rupee_mark
                       @ py_str v @ '')'']))
              else Inr []) (\<lambda>l1.
           and_then (get_method loyalty ''offers'' PNone) (\<lambda>offers.
           and_then
             (if truthy offers then
                and_then (subscript_key loyalty ''offers'') (\<lambda>os.
                and_then (subscript_zero os) (\<lambda>offer.
                  Inr [gift_mark @ '' Special offer: '' @ py_str offer]))
              else Inr []) (\<lambda>l2. Inr (l1 @ l2)))))
         else Inr [])"

definition payment_section :: "agent_state \<Rightarrow> py_error + string list" where
  "payment_section st =
     (let payment = state_get st ''payment_status''
      in if truthy payment then
           and_then (get_method payment ''success'' PNone) (\<lambda>success.
             if truthy success then
               and_then (subscript_key payment ''transaction_id'') (\<lambda>txn.
                 Inr [done_mark @ '' Payment successful! Transaction ID: '' @ py_str txn])
             else
               and_then (get_method payment ''message'' (PStr ''Please try again'')) (\<lambda>msg.
                 Inr [warning_mark @ '' Payment issue: '' @ py_str msg]))
         else Inr [])"

definition fulfillment_section :: "agent_state \<Rightarrow> py_error + string list" where
  "fulfillment_section st =
     (let fulfillment = state_get st ''fulfillment_info''
      in if truthy fulfillment then
           and_then (get_method fulfillment ''timeline'' (PStr ''2-3 days'')) (\<lambda>timeline.
             Inr [parcel_mark @ '' Delivery: '' @ py_str timeline])
         else Inr [])"

text \<open>
  The support section appends the message as it is; \<open>join\<close> raises at the end when a
  part is no string. Nothing between the two can raise, so the exception is placed here.
\<close>

definition support_section :: "agent_state \<Rightarrow> py_error + string list" where
  "support_section st =
     (let support = state_get st ''support_info''
      in if truthy support then
           and_then (get_method support ''message'' (PStr [])) (\<lambda>msg.
             case msg of
               PStr s \<Rightarrow> Inr [s]
             | _ \<Rightarrow> Inl (TypeError (''sequence item: expected str instance, '' @ type_name msg
                          @ '' found'')))
         else Inr [])"

text \<open>The list \<open>response_parts\<close> when the synthesizer joins it.\<close>

definition response_parts :: "agent_state \<Rightarrow> py_error + string list" where
  "response_parts st =
     and_then (recommendations_section st) (\<lambda>recs.
     and_then (inventory_section st) (\<lambda>inv.
     and_then (loyalty_section st) (\<lambda>loy.
     and_then (payment_section st) (\<lambda>pay.
     and_then (fulfillment_section st) (\<lambda>ful.
     and_then (support_section st) (\<lambda>sup.
       (let parts = (if messages st = [] then [greeting_text] else [])
                    @ recs @ inv @ loy @ pay @ ful @ sup
        in Inr (if parts = [] then [fallback_text] else parts))))))))"

definition synthesize_response_node :: "agent_state \<Rightarrow> py_error + agent_state" where
  "synthesize_response_node st =
     and_then (response_parts st) (\<lambda>parts.
       Inr (st\<lparr>response := join [CHR 0x0A, CHR 0x0A] parts\<rparr>))"

text \<open>The three canned replies of \<open>simple_response_node\<close>.\<close>

definition greeting_reply :: string where
  "greeting_reply = ''Hello! I'' @ [CHR 0x27] @ ''m your AI shopping assistant. ''
     @ ''I can help you find products, check availability, and complete your purchase. ''
     @ ''What are you looking for today?''"

definition thanks_reply :: string where
  "thanks_reply = ''You'' @ [CHR 0x27] @ ''re welcome! Is there anything else I can help you with?''"

definition default_reply :: string where
  "default_reply = ''I'' @ [CHR 0x27]
     @ ''m here to help! You can ask me about products, availability, or placing an order.''"

definition canned_replies :: "string list" where
  "canned_replies = [greeting_reply, thanks_reply, default_reply]"

definition simple_response_node :: "agent_state \<Rightarrow> agent_state" where
  "simple_response_node st =
     (let request = lower (current_request st)
      in if any_word_in [''hi'', ''hello'', ''hey''] request then st\<lparr>response := greeting_reply\<rparr>
         else if any_word_in [''thank'', ''thanks''] request then st\<lparr>response := thanks_reply\<rparr>
         else st\<lparr>response := default_reply\<rparr>)"

section \<open>The graph\<close>

text \<open>
  \<open>create_orchestrator_graph\<close>: the entry point is \<open>orchestrator\<close>; its conditional edge
  leads to \<open>call_agents\<close> or \<open>simple_response\<close>; both have an edge to \<open>synthesize\<close>, which
  ends the run. \<open>run_graph\<close> is the composition of the node functions along these
  edges. What the graph library does between two nodes is not modelled: \<open>AgentState\<close>
  declares \<open>agent_calls\<close> and \<open>messages\<close> with the reducer \<open>add\<close>, so the library
  concatenates the list a node returns onto the list it holds, while every node returns
  the whole state; the two lists of \<open>run_graph\<close> are the lists as the node functions
  leave them, not the lists the compiled graph returns. The field \<open>response\<close> has no
  reducer.
\<close>

definition run_graph :: "registry \<Rightarrow> agent_state \<Rightarrow> py_error + agent_state" where
  "run_graph reg st =
     (let st1 = orchestrator_node st
      in if should_call_agents st1 = ''call_agents'' then
           and_then (call_agents_node reg st1) synthesize_response_node
         else synthesize_response_node (simple_response_node st1))"

section \<open>Notions used to state the properties\<close>

text \<open>
  The number of gateways, counted from the head of the list, whose attempt fails before
  the first attempt that succeeds; the entry an attempt on the \<open>i\<close>-th gateway leaves in
  the retry history; and the entries of attempts that all failed.
\<close>

definition failing_prefix :: "rng \<Rightarrow> gateway list \<Rightarrow> nat" where
  "failing_prefix r gws =
     length (takeWhile (\<lambda>i. \<not> attempt_payment r i (gws ! i)) [0..<length gws])"

definition attempt_entry :: "rng \<Rightarrow> gateway list \<Rightarrow> nat \<Rightarrow> pydict" where
  "attempt_entry r gws i = history_entry (gws ! i) (attempt_payment r i (gws ! i))"

definition failed_entries :: "gateway list \<Rightarrow> pydict list" where
  "failed_entries gs = map (\<lambda>g. history_entry g False) gs"

text \<open>The agent named by an audit-log entry, and the status the entry holds.\<close>

definition entry_agent :: "pydict \<Rightarrow> pyval option" where
  "entry_agent e = map_of e ''agent''"

definition entry_status :: "pydict \<Rightarrow> pyval option" where
  "entry_status e = map_of e ''status''"

text \<open>
  The keys that \<open>state.update(result)\<close> assigns when it does not raise, the five result
  slots other than \<open>recommendations\<close>, the six agent instances as a list, and the value
  of a key after a node that may raise.
\<close>

fun written_keys :: "result \<Rightarrow> string set" where
  "written_keys (RDict d) = fst ` set d"
| "written_keys (RList ds) = (\<Union>d\<in>set ds. fst ` set (take 1 d))"

definition unwritten_slots :: "string list" where
  "unwritten_slots = [''inventory_status'', ''payment_status'', ''fulfillment_info'',
                      ''loyalty_info'', ''support_info'']"

definition registry_agents :: "registry \<Rightarrow> agent list" where
  "registry_agents reg =
     [recommendation_agent reg, inventory_agent reg, payment_agent reg, fulfillment_agent reg,
      loyalty_agent reg, support_agent reg]"

definition slot_after :: "py_error + agent_state \<Rightarrow> string \<Rightarrow> pyval option" where
  "slot_after outcome k = (case outcome of Inl e \<Rightarrow> None | Inr st \<Rightarrow> slots st k)"

text \<open>A result that the agent \<open>a\<close> can have contributed to a run started in \<open>st\<close>: what
  \<open>_execute\<close> returns on \<open>st\<close> with some audit log, or the empty dictionary when it
  raises there.\<close>

definition contributed_by :: "agent_state \<Rightarrow> agent \<Rightarrow> result \<Rightarrow> bool" where
  "contributed_by st a res =
     (\<exists>calls. res = (case execute a (st\<lparr>agent_calls := calls\<rparr>) of
                       Inl e \<Rightarrow> RDict [] | Inr r \<Rightarrow> r))"

text \<open>A task after its first turn, seen from the agent that owns it.\<close>

definition task_of :: "agent_state \<Rightarrow> agent \<Rightarrow> task \<Rightarrow> bool" where
  "task_of st a t =
     (case t of
        Done res \<Rightarrow> contributed_by st a res
      | Pending outcome \<Rightarrow> (\<exists>calls. outcome = execute a (st\<lparr>agent_calls := calls\<rparr>)))"

text \<open>
  The entry \<open>BaseAgent.run\<close> appends for an agent, the key-value pairs it writes when the
  agent has finished, and the two kinds of status an agent's entry can hold.
\<close>

definition processing_entry :: "agent \<Rightarrow> pydict" where
  "processing_entry a = [(''agent'', PStr (agent_name a)), (''status'', PStr ''processing'')]"

definition finish_update :: "py_error + result \<Rightarrow> pydict" where
  "finish_update outcome =
     (case outcome of
        Inr res \<Rightarrow> [(''status'', PStr ''success''), (''result'', result_value res)]
      | Inl e \<Rightarrow> [(''status'', PStr ''failed''), (''error'', PStr (error_text e))])"

definition terminal_entry :: "pydict \<Rightarrow> bool" where
  "terminal_entry e =
     (entry_status e = Some (PStr ''success'') \<or> entry_status e = Some (PStr ''failed''))"

definition agent_entry :: "pydict \<Rightarrow> bool" where
  "agent_entry e = (entry_status e = Some (PStr ''processing'') \<or> terminal_entry e)"

text \<open>The audit log after a node that may raise (empty when it raises).\<close>

definition calls_after :: "py_error + agent_state \<Rightarrow> pydict list" where
  "calls_after outcome = (case outcome of Inl e \<Rightarrow> [] | Inr st \<Rightarrow> agent_calls st)"

subsection \<open>Example inputs\<close>

definition example_item :: cart_item where
  "example_item = \<lparr>product_id = ''VH001'', quantity = 1, item_size = Some ''40''\<rparr>"

definition example_state :: "string \<Rightarrow> cart_item list \<Rightarrow> agent_state" where
  "example_state req crt = create_initial_state ''S1'' ''CUST001'' ''web'' req [] [] crt ''Mumbai''"

definition example_rng :: "rat \<Rightarrow> rng" where
  "example_rng x = \<lparr>random_draws = (\<lambda>i. x), randint_value = 123456\<rparr>"

definition example_recs :: "pyval list" where
  "example_recs =
     [PDict [(''name'', PStr ''Classic Blue Formal Shirt''), (''price'', PInt 2500)],
      PDict [(''name'', PStr ''Navy Blue Silk Tie''), (''price'', PInt 800)],
      PDict [(''name'', PStr ''Brown Leather Belt''), (''price'', PInt 1200)],
      PDict [(''name'', PStr ''Grey Wool Trousers''), (''price'', PInt 3200)]]"

definition example_recommended :: agent_state where
  "example_recommended =
     (example_state ''show me something'' [])
       \<lparr>slots := (slots (example_state ''show me something'' []))
                   (''recommendations'' \<mapsto> PList example_recs)\<rparr>"

definition example_registry :: registry where
  "example_registry = agents fallback_data (example_rng (1 / 2))"

text \<open>
  The request \<open>pay\<close> with an empty cart, once classified; what the payment agent and the
  loyalty agent return on it; and a customer table whose record for the customer has no
  number under \<open>loyalty_points\<close>.
\<close>

definition example_pay_state :: agent_state where
  "example_pay_state = orchestrator_node (example_state ''pay'' [])"

definition example_payment_result :: pydict where
  "example_payment_result = payment_execute (example_rng (1 / 2)) gateways example_pay_state"

definition example_loyalty_result :: pydict where
  "example_loyalty_result =
     (case loyalty_execute (customers fallback_data) example_pay_state of
        Inl e \<Rightarrow> [] | Inr res \<Rightarrow> res)"

definition bad_registry :: registry where
  "bad_registry =
     agents (fallback_data\<lparr>customers := [(''CUST001'', [(''customer_id'', PStr ''CUST001''),
                                                         (''loyalty_points'', PNone)])]\<rparr>)
            (example_rng (1 / 2))"

section \<open>Properties of the classifier\<close>

lemma select_agents_spec:
  "select_agents st =
     spec_classify (lower (current_request st)) (cart st \<noteq> [] \<or> liked_products st \<noteq> [])"
  unfolding select_agents_def spec_classify_def matched_groups_def keyword_groups_def
    first_seen_def Let_def
  by (cases "any_word_in recommendation_words (lower (current_request st))";
      cases "any_word_in inventory_words (lower (current_request st))";
      cases "any_word_in payment_words (lower (current_request st))";
      cases "any_word_in fulfillment_words (lower (current_request st))";
      cases "any_word_in loyalty_words (lower (current_request st))";
      cases "any_word_in support_words (lower (current_request st))";
      cases "cart st \<noteq> [] \<or> liked_products st \<noteq> []"; simp)

lemma agents_needed_orchestrator [simp]:
  "agents_needed (orchestrator_node st) = select_agents st"
  by (simp add: orchestrator_node_def Let_def)

lemma set_first_seen [simp]: "set (first_seen xs) = set xs"
  by (simp add: first_seen_def)

lemma distinct_first_seen [simp]: "distinct (first_seen xs)"
  by (simp add: first_seen_def)

lemmas eval_text = lower_def lower_char_def any_word_in_def

lemmas eval_words = recommendation_words_def inventory_words_def payment_words_def
  fulfillment_words_def loyalty_words_def support_words_def

text \<open>
  C4. When the lower-cased request matches at least one keyword group, the selected agents
  contain the id of every matched group, contain \<open>loyalty\<close>, contain \<open>recommendation\<close>
  whenever the cart or the liked products are non-empty, have no duplicates, and come in
  first-seen order: they are the matched groups in the order of the rule table, then
  \<open>recommendation\<close>, then \<open>loyalty\<close>, each kept at its first occurrence only.
\<close>

theorem classifier_selection:
  assumes "matched_groups (lower (current_request st)) \<noteq> []"
  shows "set (matched_groups (lower (current_request st))) \<subseteq> set (agents_needed (orchestrator_node st))
       \<and> ''loyalty'' \<in> set (agents_needed (orchestrator_node st))
       \<and> ((cart st \<noteq> [] \<or> liked_products st \<noteq> [])
            \<longrightarrow> ''recommendation'' \<in> set (agents_needed (orchestrator_node st)))
       \<and> distinct (agents_needed (orchestrator_node st))
       \<and> agents_needed (orchestrator_node st) =
           first_seen (matched_groups (lower (current_request st))
                       @ (if cart st \<noteq> [] \<or> liked_products st \<noteq> [] then [''recommendation''] else [])
                       @ [''loyalty''])"
  using assms by (auto simp add: select_agents_spec spec_classify_def Let_def)

theorem classifier_selection_witness:
  "matched_groups (lower (current_request (example_state ''Pay now'' [example_item]))) \<noteq> []
   \<and> agents_needed (orchestrator_node (example_state ''Pay now'' [example_item]))
       = [''payment'', ''recommendation'', ''loyalty'']"
proof -
  have m: "matched_groups (lower (current_request (example_state ''Pay now'' [example_item])))
             = [''payment'']"
    by (simp add: example_state_def create_initial_state_def matched_groups_def
        keyword_groups_def eval_text eval_words)
  then have h: "matched_groups (lower (current_request (example_state ''Pay now'' [example_item])))
                  \<noteq> []" by simp
  have c: "cart (example_state ''Pay now'' [example_item]) \<noteq> []"
    by (simp add: example_state_def create_initial_state_def)
  from classifier_selection[OF h] have
    "agents_needed (orchestrator_node (example_state ''Pay now'' [example_item])) =
       first_seen (matched_groups (lower (current_request (example_state ''Pay now'' [example_item])))
         @ (if cart (example_state ''Pay now'' [example_item]) \<noteq> []
               \<or> liked_products (example_state ''Pay now'' [example_item]) \<noteq> []
            then [''recommendation''] else [])
         @ [''loyalty''])" by blast
  with m c h show ?thesis by (simp add: first_seen_def)
qed

text \<open>
  C9. When the lower-cased request contains \<open>buy\<close> but none of \<open>pay\<close>, \<open>checkout\<close>,
  \<open>purchase\<close>, the classifier selects the payment agent, and the payment agent returns
  the pending result \<open>{status, amount, message}\<close> whatever the gateways and the random
  draws are: no gateway is attempted, the agent does not give control back, and the
  result has no \<open>retry_history\<close>.
\<close>

theorem buy_selects_payment_but_stays_pending:
  assumes "has_substr ''buy'' (lower (current_request st))"
    and "\<not> has_substr ''pay'' (lower (current_request st))"
    and "\<not> has_substr ''checkout'' (lower (current_request st))"
    and "\<not> has_substr ''purchase'' (lower (current_request st))"
  shows "''payment'' \<in> set (agents_needed (orchestrator_node st))
       \<and> execute (payment_agent (agents d r)) st =
           Inr (RDict [(''status'', PStr ''pending''), (''amount'', calculate_total (cart st)),
                       (''message'', PStr ''Ready to process payment'')])
       \<and> payment_execute r gws st =
           [(''status'', PStr ''pending''), (''amount'', calculate_total (cart st)),
            (''message'', PStr ''Ready to process payment'')]
       \<and> map_of (payment_execute r gws st) ''retry_history'' = None
       \<and> \<not> suspends (payment_agent (agents d r)) st"
proof -
  have sel: "''payment'' \<in> set (select_agents st)"
    using assms(1) by (simp add: select_agents_def Let_def any_word_in_def payment_words_def)
  have nopay: "\<not> payment_requested st"
    using assms(2-4) by (simp add: payment_requested_def Let_def)
  show ?thesis
    using sel nopay
    by (simp add: payment_execute_def Let_def agents_def payment_agent_of_def)
qed

theorem buy_selects_payment_but_stays_pending_witness:
  "has_substr ''buy'' (lower (current_request (example_state ''I want to BUY this'' [])))
   \<and> \<not> has_substr ''pay'' (lower (current_request (example_state ''I want to BUY this'' [])))
   \<and> ''payment'' \<in> set (agents_needed (orchestrator_node (example_state ''I want to BUY this'' [])))
   \<and> execute (payment_agent (agents fallback_data (example_rng (1 / 2))))
         (example_state ''I want to BUY this'' []) =
       Inr (RDict [(''status'', PStr ''pending''), (''amount'', PFloat 3950),
                   (''message'', PStr ''Ready to process payment'')])"
proof -
  have r: "lower (current_request (example_state ''I want to BUY this'' [])) = ''i want to buy this''"
    by (simp add: example_state_def create_initial_state_def eval_text)
  have c: "cart (example_state ''I want to BUY this'' []) = []"
    by (simp add: example_state_def create_initial_state_def)
  have h1: "has_substr ''buy'' (lower (current_request (example_state ''I want to BUY this'' [])))"
    and h2: "\<not> has_substr ''pay'' (lower (current_request (example_state ''I want to BUY this'' [])))"
    and h3: "\<not> has_substr ''checkout'' (lower (current_request (example_state ''I want to BUY this'' [])))"
    and h4: "\<not> has_substr ''purchase'' (lower (current_request (example_state ''I want to BUY this'' [])))"
    unfolding r by simp_all
  from buy_selects_payment_but_stays_pending[OF h1 h2 h3 h4,
      of fallback_data "example_rng (1 / 2)" gateways] h1 h2 c
  show ?thesis by (simp add: calculate_total_def)
qed

section \<open>Properties of the payment failover protocol\<close>

lemma retry_loop_all_fail:
  assumes "\<forall>j<length gs. \<not> attempt_payment r (length hist + j) (gs ! j)"
  shows "retry_loop r al amount gs hist =
      [(''success'', PBool False), (''status'', PStr ''failed''), (''amount'', amount),
       (''retry_history'', PList (map PDict (hist @ failed_entries gs))),
       (''message'', PStr ''All payment methods failed. Please try again later.'')]"
  using assms
proof (induction gs arbitrary: hist)
  case Nil
  then show ?case by (simp add: failed_entries_def)
next
  case (Cons g gs)
  from Cons.prems have g: "\<not> attempt_payment r (length hist) g" by force
  from Cons.prems have rest:
    "\<forall>j<length gs. \<not> attempt_payment r (length (hist @ [history_entry g False]) + j) (gs ! j)"
    by force
  show ?case
    using g Cons.IH[OF rest] by (simp add: Let_def failed_entries_def)
qed

lemma retry_loop_first_success:
  assumes "f < length gs"
    and "\<forall>j<f. \<not> attempt_payment r (length hist + j) (gs ! j)"
    and "attempt_payment r (length hist + f) (gs ! f)"
  shows "map_of (retry_loop r al amount gs hist) ''success'' = Some (PBool True)
       \<and> map_of (retry_loop r al amount gs hist) ''status'' = Some (PStr ''completed'')
       \<and> map_of (retry_loop r al amount gs hist) ''gateway'' = Some (PStr (gateway_name (gs ! f)))
       \<and> map_of (retry_loop r al amount gs hist) ''retry_history'' =
           Some (PList (map PDict (hist @ failed_entries (take f gs) @ [history_entry (gs ! f) True])))"
  using assms
proof (induction gs arbitrary: hist f)
  case Nil
  then show ?case by simp
next
  case (Cons g gs)
  show ?case
  proof (cases f)
    case 0
    with Cons.prems show ?thesis by (simp add: Let_def failed_entries_def)
  next
    case (Suc f')
    from Cons.prems Suc have g: "\<not> attempt_payment r (length hist) g" by force
    from Cons.prems Suc have a: "f' < length gs" by simp
    from Cons.prems Suc have b:
      "\<forall>j<f'. \<not> attempt_payment r (length (hist @ [history_entry g False]) + j) (gs ! j)"
      by force
    from Cons.prems Suc have c:
      "attempt_payment r (length (hist @ [history_entry g False]) + f') (gs ! f')" by simp
    show ?thesis
      using g Suc Cons.IH[OF a b c] by (simp add: Let_def failed_entries_def)
  qed
qed

lemma failing_prefix_le: "failing_prefix r gws \<le> length gws"
  unfolding failing_prefix_def using length_takeWhile_le[of _ "[0..<length gws]"] by simp

lemma failing_prefix_fails:
  assumes "i < failing_prefix r gws"
  shows "\<not> attempt_payment r i (gws ! i)"
proof -
  let ?P = "\<lambda>i. \<not> attempt_payment r i (gws ! i)"
  let ?xs = "[0..<length gws]"
  from assms have i: "i < length (takeWhile ?P ?xs)" by (simp add: failing_prefix_def)
  then have "takeWhile ?P ?xs ! i \<in> set (takeWhile ?P ?xs)" by simp
  then have "?P (takeWhile ?P ?xs ! i)" by (rule set_takeWhileD[THEN conjunct2])
  moreover have "takeWhile ?P ?xs ! i = ?xs ! i" using i by (rule takeWhile_nth)
  moreover have "i < length gws" using assms failing_prefix_le[of r gws] by simp
  ultimately show ?thesis by simp
qed

lemma failing_prefix_stops:
  assumes "failing_prefix r gws < length gws"
  shows "attempt_payment r (failing_prefix r gws) (gws ! failing_prefix r gws)"
proof -
  let ?P = "\<lambda>i. \<not> attempt_payment r i (gws ! i)"
  let ?xs = "[0..<length gws]"
  from assms have "length (takeWhile ?P ?xs) < length ?xs" by (simp add: failing_prefix_def)
  then have "\<not> ?P (?xs ! length (takeWhile ?P ?xs))" by (rule nth_length_takeWhile)
  with assms show ?thesis by (simp add: failing_prefix_def)
qed

lemma failing_prefix_all:
  assumes "\<forall>i<length gws. \<not> attempt_payment r i (gws ! i)"
  shows "failing_prefix r gws = length gws"
proof (rule ccontr)
  assume "failing_prefix r gws \<noteq> length gws"
  with failing_prefix_le[of r gws] have lt: "failing_prefix r gws < length gws" by simp
  from failing_prefix_stops[OF lt] assms lt show False by blast
qed

lemma failed_entries_attempts:
  assumes "\<forall>i<n. \<not> attempt_payment r i (gws ! i)" and "n \<le> length gws"
  shows "failed_entries (take n gws) = map (attempt_entry r gws) [0..<n]"
  using assms by (auto simp add: failed_entries_def attempt_entry_def list_eq_iff_nth_eq)

lemma failover_characterisation:
  "map_of (process_payment_with_retry r gws amount) ''retry_history'' =
      Some (PList (map PDict (map (attempt_entry r gws)
                                  [0..<min (Suc (failing_prefix r gws)) (length gws)])))
   \<and> (\<forall>i<failing_prefix r gws. \<not> attempt_payment r i (gws ! i))
   \<and> (failing_prefix r gws < length gws \<longrightarrow>
        attempt_payment r (failing_prefix r gws) (gws ! failing_prefix r gws)
        \<and> map_of (process_payment_with_retry r gws amount) ''success'' = Some (PBool True)
        \<and> map_of (process_payment_with_retry r gws amount) ''status'' = Some (PStr ''completed'')
        \<and> map_of (process_payment_with_retry r gws amount) ''gateway''
            = Some (PStr (gateway_name (gws ! failing_prefix r gws))))
   \<and> ((\<forall>i<length gws. \<not> attempt_payment r i (gws ! i)) \<longrightarrow>
        map_of (process_payment_with_retry r gws amount) ''success'' = Some (PBool False)
        \<and> map_of (process_payment_with_retry r gws amount) ''status'' = Some (PStr ''failed'')
        \<and> map_of (process_payment_with_retry r gws amount) ''retry_history''
            = Some (PList (map PDict (map (attempt_entry r gws) [0..<length gws]))))"
proof -
  let ?f = "failing_prefix r gws"
  let ?res = "process_payment_with_retry r gws amount"
  have fails: "\<forall>i<?f. \<not> attempt_payment r i (gws ! i)"
    using failing_prefix_fails by blast
  have le: "?f \<le> length gws" by (rule failing_prefix_le)
  have succ: "map_of ?res ''success'' = Some (PBool True)
       \<and> map_of ?res ''status'' = Some (PStr ''completed'')
       \<and> map_of ?res ''gateway'' = Some (PStr (gateway_name (gws ! ?f)))
       \<and> map_of ?res ''retry_history'' =
           Some (PList (map PDict (map (attempt_entry r gws) [0..<Suc ?f])))"
    if lt: "?f < length gws"
  proof -
    have stop: "attempt_payment r ?f (gws ! ?f)" using lt by (rule failing_prefix_stops)
    have a: "\<forall>j<?f. \<not> attempt_payment r (length ([]::pydict list) + j) (gws ! j)"
      using fails by simp
    have b: "attempt_payment r (length ([]::pydict list) + ?f) (gws ! ?f)" using stop by simp
    have e: "failed_entries (take ?f gws) = map (attempt_entry r gws) [0..<?f]"
      using fails le by (rule failed_entries_attempts)
    have l: "history_entry (gws ! ?f) True = attempt_entry r gws ?f"
      using stop by (simp add: attempt_entry_def)
    from retry_loop_first_success[OF lt a b, of gws amount] e l
    show ?thesis by (simp add: process_payment_with_retry_def)
  qed
  have allfail: "map_of ?res ''success'' = Some (PBool False)
       \<and> map_of ?res ''status'' = Some (PStr ''failed'')
       \<and> map_of ?res ''retry_history'' =
           Some (PList (map PDict (map (attempt_entry r gws) [0..<length gws])))"
    if all: "\<forall>i<length gws. \<not> attempt_payment r i (gws ! i)"
  proof -
    have a: "\<forall>j<length gws. \<not> attempt_payment r (length ([]::pydict list) + j) (gws ! j)"
      using all by simp
    have e: "failed_entries (take (length gws) gws) = map (attempt_entry r gws) [0..<length gws]"
      using all by (intro failed_entries_attempts) simp_all
    from retry_loop_all_fail[OF a, of gws amount] e
    show ?thesis by (simp add: process_payment_with_retry_def)
  qed
  have hist: "map_of ?res ''retry_history'' =
      Some (PList (map PDict (map (attempt_entry r gws) [0..<min (Suc ?f) (length gws)])))"
  proof (cases "?f < length gws")
    case True
    then have "min (Suc ?f) (length gws) = Suc ?f" by simp
    with succ[OF True] show ?thesis by simp
  next
    case False
    with le have eq: "?f = length gws" by simp
    then have "\<forall>i<length gws. \<not> attempt_payment r i (gws ! i)" using fails by simp
    from allfail[OF this] eq show ?thesis by simp
  qed
  from hist fails succ allfail failing_prefix_stops show ?thesis by blast
qed

lemmas eval_payment = gateways_def attempt_payment_def example_rng_def history_entry_def
  attempt_entry_def

lemma failing_prefix_example: "failing_prefix (example_rng (1 / 2)) gateways = 2"
  by (simp add: failing_prefix_def eval_payment upt_rec)

text \<open>
  C5. For every gateway list and every sequence of draws, the retry history returned is
  the list of the attempts on the gateways at positions \<open>0, 1, ..., k - 1\<close> in that order,
  the \<open>i\<close>-th entry recording the attempt on the \<open>i\<close>-th gateway: list order, each
  position once. Every attempt before the last one failed, so the protocol stops at the
  first success. When an attempt succeeds the result is that of the first gateway to
  succeed; when every gateway fails the result has \<open>success = False\<close>, status \<open>failed\<close>
  and one history entry per gateway. The history is part of both results.
\<close>

theorem payment_failover_protocol:
  "map_of (process_payment_with_retry r gws amount) ''retry_history'' =
      Some (PList (map PDict (map (attempt_entry r gws)
                                  [0..<min (Suc (failing_prefix r gws)) (length gws)])))
   \<and> (\<forall>i<failing_prefix r gws. \<not> attempt_payment r i (gws ! i))
   \<and> (failing_prefix r gws < length gws \<longrightarrow>
        attempt_payment r (failing_prefix r gws) (gws ! failing_prefix r gws)
        \<and> map_of (process_payment_with_retry r gws amount) ''success'' = Some (PBool True)
        \<and> map_of (process_payment_with_retry r gws amount) ''status'' = Some (PStr ''completed'')
        \<and> map_of (process_payment_with_retry r gws amount) ''gateway''
            = Some (PStr (gateway_name (gws ! failing_prefix r gws))))
   \<and> ((\<forall>i<length gws. \<not> attempt_payment r i (gws ! i)) \<longrightarrow>
        map_of (process_payment_with_retry r gws amount) ''success'' = Some (PBool False)
        \<and> map_of (process_payment_with_retry r gws amount) ''status'' = Some (PStr ''failed'')
        \<and> map_of (process_payment_with_retry r gws amount) ''retry_history''
            = Some (PList (map PDict (map (attempt_entry r gws) [0..<length gws]))))"
  by (rule failover_characterisation)

theorem payment_failover_protocol_witness:
  "failing_prefix (example_rng (1 / 2)) gateways < length gateways
   \<and> map_of (process_payment_with_retry (example_rng (1 / 2)) gateways (PFloat 3950)) ''gateway''
       = Some (PStr ''UPI Direct'')
   \<and> map_of (process_payment_with_retry (example_rng (1 / 2)) gateways (PFloat 3950)) ''retry_history''
       = Some (PList [PDict [(''gateway'', PStr ''Razorpay''), (''status'', PStr ''failed'')],
                      PDict [(''gateway'', PStr ''PayU''), (''status'', PStr ''failed'')],
                      PDict [(''gateway'', PStr ''UPI Direct''), (''status'', PStr ''success'')]])
   \<and> length (take 2 gateways) = 2
   \<and> \<not> attempt_payment (example_rng (1 / 2)) 0 (take 2 gateways ! 0)
   \<and> \<not> attempt_payment (example_rng (1 / 2)) 1 (take 2 gateways ! 1)
   \<and> map_of (process_payment_with_retry (example_rng (1 / 2)) (take 2 gateways) (PFloat 3950))
         ''success'' = Some (PBool False)
   \<and> map_of (process_payment_with_retry (example_rng (1 / 2)) (take 2 gateways) (PFloat 3950))
         ''retry_history''
       = Some (PList [PDict [(''gateway'', PStr ''Razorpay''), (''status'', PStr ''failed'')],
                      PDict [(''gateway'', PStr ''PayU''), (''status'', PStr ''failed'')]])"
proof -
  have lt: "failing_prefix (example_rng (1 / 2)) gateways < length gateways"
    by (simp add: failing_prefix_example) (simp add: gateways_def)
  have allf: "\<forall>i<length (take 2 gateways).
                \<not> attempt_payment (example_rng (1 / 2)) i (take 2 gateways ! i)"
    by (simp add: eval_payment less_Suc_eq)
  from payment_failover_protocol[of "example_rng (1 / 2)" gateways "PFloat 3950"] lt
  have a: "map_of (process_payment_with_retry (example_rng (1 / 2)) gateways (PFloat 3950)) ''gateway''
       = Some (PStr (gateway_name (gateways ! failing_prefix (example_rng (1 / 2)) gateways)))"
    and b: "map_of (process_payment_with_retry (example_rng (1 / 2)) gateways (PFloat 3950))
        ''retry_history'' = Some (PList (map PDict (map (attempt_entry (example_rng (1 / 2)) gateways)
            [0..<min (Suc (failing_prefix (example_rng (1 / 2)) gateways)) (length gateways)])))"
    by blast+
  from payment_failover_protocol[of "example_rng (1 / 2)" "take 2 gateways" "PFloat 3950"] allf
  have c: "map_of (process_payment_with_retry (example_rng (1 / 2)) (take 2 gateways) (PFloat 3950))
         ''success'' = Some (PBool False)"
    and d: "map_of (process_payment_with_retry (example_rng (1 / 2)) (take 2 gateways) (PFloat 3950))
         ''retry_history'' = Some (PList (map PDict (map (attempt_entry (example_rng (1 / 2))
            (take 2 gateways)) [0..<length (take 2 gateways)])))"
    by blast+
  have a': "gateway_name (gateways ! failing_prefix (example_rng (1 / 2)) gateways) = ''UPI Direct''"
    by (simp add: failing_prefix_example) (simp add: gateways_def)
  have b': "map (attempt_entry (example_rng (1 / 2)) gateways)
            [0..<min (Suc (failing_prefix (example_rng (1 / 2)) gateways)) (length gateways)]
          = [[(''gateway'', PStr ''Razorpay''), (''status'', PStr ''failed'')],
             [(''gateway'', PStr ''PayU''), (''status'', PStr ''failed'')],
             [(''gateway'', PStr ''UPI Direct''), (''status'', PStr ''success'')]]"
    by (simp add: failing_prefix_example) (simp add: eval_payment upt_rec)
  have d': "map (attempt_entry (example_rng (1 / 2)) (take 2 gateways)) [0..<length (take 2 gateways)]
          = [[(''gateway'', PStr ''Razorpay''), (''status'', PStr ''failed'')],
             [(''gateway'', PStr ''PayU''), (''status'', PStr ''failed'')]]"
    by (simp add: eval_payment upt_rec)
  have len: "length (take 2 gateways) = 2" by (simp add: gateways_def)
  have f0: "\<not> attempt_payment (example_rng (1 / 2)) 0 (take 2 gateways ! 0)"
    and f1: "\<not> attempt_payment (example_rng (1 / 2)) 1 (take 2 gateways ! 1)"
    by (simp_all add: eval_payment)
  from lt len f0 f1 a b c d show ?thesis unfolding a' b' d' by simp
qed

text \<open>
  C10. With the configured gateways, whose last one, \<open>UPI Direct\<close>, has success rate 1, and
  draws in \<open>[0, 1)\<close>, an attempt on the last gateway succeeds whatever its draw, so the
  protocol returns \<open>success = True\<close> with at most three history entries, and not every
  gateway fails: the all-failed result is never returned.
\<close>

theorem configured_gateways_always_succeed:
  assumes "\<forall>i. 0 \<le> random_draws r i \<and> random_draws r i < 1"
  shows "gateway_name (last gateways) = ''UPI Direct'' \<and> success_rate (last gateways) = 1
       \<and> (\<forall>i. attempt_payment r i (last gateways))
       \<and> map_of (process_payment_with_retry r gateways amount) ''success'' = Some (PBool True)
       \<and> map_of (process_payment_with_retry r gateways amount) ''status'' = Some (PStr ''completed'')
       \<and> (\<exists>h. map_of (process_payment_with_retry r gateways amount) ''retry_history''
                 = Some (PList h) \<and> length h \<le> 3)
       \<and> \<not> (\<forall>i<length gateways. \<not> attempt_payment r i (gateways ! i))"
proof -
  have last: "\<forall>i. attempt_payment r i (last gateways)"
    using assms by (simp add: gateways_def attempt_payment_def)
  have two: "attempt_payment r 2 (gateways ! 2)"
    using assms by (simp add: gateways_def attempt_payment_def)
  have len: "length gateways = 3" by (simp add: gateways_def)
  have lt: "failing_prefix r gateways < length gateways"
  proof (rule ccontr)
    assume "\<not> failing_prefix r gateways < length gateways"
    with failing_prefix_le[of r gateways] len have "2 < failing_prefix r gateways" by simp
    from failing_prefix_fails[OF this] two show False by simp
  qed
  from failover_characterisation[of r gateways amount] lt
  have s: "map_of (process_payment_with_retry r gateways amount) ''success'' = Some (PBool True)"
    and c: "map_of (process_payment_with_retry r gateways amount) ''status'' = Some (PStr ''completed'')"
    and h: "map_of (process_payment_with_retry r gateways amount) ''retry_history'' =
      Some (PList (map PDict (map (attempt_entry r gateways)
                                  [0..<min (Suc (failing_prefix r gateways)) (length gateways)])))"
    by blast+
  have hl: "\<exists>h. map_of (process_payment_with_retry r gateways amount) ''retry_history''
                 = Some (PList h) \<and> length h \<le> 3"
    using h len by (intro exI[of _ "map PDict (map (attempt_entry r gateways)
          [0..<min (Suc (failing_prefix r gateways)) (length gateways)])"]) simp
  have nf: "\<not> (\<forall>i<length gateways. \<not> attempt_payment r i (gateways ! i))"
  proof
    assume "\<forall>i<length gateways. \<not> attempt_payment r i (gateways ! i)"
    then have "\<not> attempt_payment r 2 (gateways ! 2)" using len by simp
    with two show False by simp
  qed
  have nm: "gateway_name (last gateways) = ''UPI Direct'' \<and> success_rate (last gateways) = 1"
    by (simp add: gateways_def)
  from nm last s c hl nf show ?thesis by blast
qed

theorem configured_gateways_always_succeed_witness:
  "(\<forall>i. 0 \<le> random_draws (example_rng (999 / 1000)) i \<and> random_draws (example_rng (999 / 1000)) i < 1)
   \<and> map_of (process_payment_with_retry (example_rng (999 / 1000)) gateways (PFloat 3950)) ''success''
       = Some (PBool True)"
proof -
  have h: "\<forall>i. 0 \<le> random_draws (example_rng (999 / 1000)) i
              \<and> random_draws (example_rng (999 / 1000)) i < 1"
    by (simp add: example_rng_def)
  from configured_gateways_always_succeed[OF h, of "PFloat 3950"] h show ?thesis by blast
qed

section \<open>Properties of the synthesizer and of the no-agent path\<close>

lemma and_then_Inr [simp]: "and_then (Inr x) f = f x"
  by (simp add: and_then_def)

lemma and_then_Inl [simp]: "and_then (Inl e) f = Inl e"
  by (simp add: and_then_def)

lemma empty_sections:
  assumes "\<not> truthy (state_get st ''inventory_status'')"
    and "\<not> truthy (state_get st ''loyalty_info'')"
    and "\<not> truthy (state_get st ''payment_status'')"
    and "\<not> truthy (state_get st ''fulfillment_info'')"
    and "\<not> truthy (state_get st ''support_info'')"
  shows "inventory_section st = Inr []" and "loyalty_section st = Inr []"
    and "payment_section st = Inr []" and "fulfillment_section st = Inr []"
    and "support_section st = Inr []"
  using assms
  by (simp_all add: inventory_section_def loyalty_section_def payment_section_def
      fulfillment_section_def support_section_def Let_def)

text \<open>
  C7. When the recommendations slot holds exactly four items, the first three carrying a
  name and a price, and every other result slot is empty, the parts of the response are
  the greeting (only when there is no conversation history), the header with the count 4,
  and one line for each of the first three items with its name and price; there is no part
  for the fourth item nor for inventory, loyalty, payment, fulfillment or support. The
  response is these parts joined by blank lines.
\<close>

theorem synthesizer_top_three_only:
  assumes "state_get st ''recommendations'' = PList [r1, r2, r3, r4]"
    and "subscript_key r1 ''name'' = Inr n1" and "subscript_key r1 ''price'' = Inr p1"
    and "subscript_key r2 ''name'' = Inr n2" and "subscript_key r2 ''price'' = Inr p2"
    and "subscript_key r3 ''name'' = Inr n3" and "subscript_key r3 ''price'' = Inr p3"
    and "\<not> truthy (state_get st ''inventory_status'')"
    and "\<not> truthy (state_get st ''loyalty_info'')"
    and "\<not> truthy (state_get st ''payment_status'')"
    and "\<not> truthy (state_get st ''fulfillment_info'')"
    and "\<not> truthy (state_get st ''support_info'')"
  shows "response_parts st =
           Inr ((if messages st = [] then [greeting_text] else [])
                @ [recommendations_header 4,
                   bullet_mark @ '' '' @ py_str n1 @ '' - '' @ rupee_mark @ py_str p1,
                   bullet_mark @ '' '' @ py_str n2 @ '' - '' @ rupee_mark @ py_str p2,
                   bullet_mark @ '' '' @ py_str n3 @ '' - '' @ rupee_mark @ py_str p3])
       \<and> synthesize_response_node st =
           Inr (st\<lparr>response := join [CHR 0x0A, CHR 0x0A]
                  ((if messages st = [] then [greeting_text] else [])
                   @ [recommendations_header 4,
                      bullet_mark @ '' '' @ py_str n1 @ '' - '' @ rupee_mark @ py_str p1,
                      bullet_mark @ '' '' @ py_str n2 @ '' - '' @ rupee_mark @ py_str p2,
                      bullet_mark @ '' '' @ py_str n3 @ '' - '' @ rupee_mark @ py_str p3])\<rparr>)"
proof -
  have recs: "recommendations_section st =
      Inr [recommendations_header 4,
           bullet_mark @ '' '' @ py_str n1 @ '' - '' @ rupee_mark @ py_str p1,
           bullet_mark @ '' '' @ py_str n2 @ '' - '' @ rupee_mark @ py_str p2,
           bullet_mark @ '' '' @ py_str n3 @ '' - '' @ rupee_mark @ py_str p3]"
    using assms(1-7) by (simp add: recommendations_section_def Let_def item_line_def eval_nat_numeral)
  have parts: "response_parts st =
           Inr ((if messages st = [] then [greeting_text] else [])
                @ [recommendations_header 4,
                   bullet_mark @ '' '' @ py_str n1 @ '' - '' @ rupee_mark @ py_str p1,
                   bullet_mark @ '' '' @ py_str n2 @ '' - '' @ rupee_mark @ py_str p2,
                   bullet_mark @ '' '' @ py_str n3 @ '' - '' @ rupee_mark @ py_str p3])"
    using recs empty_sections[OF assms(8-12)] by (simp add: response_parts_def Let_def)
  then show ?thesis by (simp add: synthesize_response_node_def)
qed

theorem synthesizer_top_three_only_witness:
  "state_get example_recommended ''recommendations'' = PList example_recs
   \<and> length example_recs = 4
   \<and> \<not> truthy (state_get example_recommended ''payment_status'')
   \<and> response_parts example_recommended =
       Inr [greeting_text, recommendations_header 4,
            bullet_mark @ '' Classic Blue Formal Shirt - '' @ rupee_mark @ show_int 2500,
            bullet_mark @ '' Navy Blue Silk Tie - '' @ rupee_mark @ show_int 800,
            bullet_mark @ '' Brown Leather Belt - '' @ rupee_mark @ show_int 1200]"
proof -
  have s: "state_get example_recommended ''recommendations'' =
      PList [PDict [(''name'', PStr ''Classic Blue Formal Shirt''), (''price'', PInt 2500)],
             PDict [(''name'', PStr ''Navy Blue Silk Tie''), (''price'', PInt 800)],
             PDict [(''name'', PStr ''Brown Leather Belt''), (''price'', PInt 1200)],
             PDict [(''name'', PStr ''Grey Wool Trousers''), (''price'', PInt 3200)]]"
    by (simp add: example_recommended_def example_recs_def example_state_def
        create_initial_state_def state_get_def)
  have e: "\<not> truthy (state_get example_recommended ''inventory_status'')"
      "\<not> truthy (state_get example_recommended ''loyalty_info'')"
      "\<not> truthy (state_get example_recommended ''payment_status'')"
      "\<not> truthy (state_get example_recommended ''fulfillment_info'')"
      "\<not> truthy (state_get example_recommended ''support_info'')"
    by (simp_all add: example_recommended_def example_state_def create_initial_state_def
        state_get_def)
  have m: "messages example_recommended = []"
    by (simp add: example_recommended_def example_state_def create_initial_state_def)
  from synthesizer_top_three_only[OF s _ _ _ _ _ _ e,
      of "PStr ''Classic Blue Formal Shirt''" "PInt 2500"
         "PStr ''Navy Blue Silk Tie''" "PInt 800"
         "PStr ''Brown Leather Belt''" "PInt 1200"] s e m
  show ?thesis by (simp add: py_str_def example_recs_def)
qed

lemma no_agent_run:
  assumes "select_agents st = []"
    and "\<not> truthy (state_get st ''recommendations'')"
    and "\<not> truthy (state_get st ''inventory_status'')"
    and "\<not> truthy (state_get st ''loyalty_info'')"
    and "\<not> truthy (state_get st ''payment_status'')"
    and "\<not> truthy (state_get st ''fulfillment_info'')"
    and "\<not> truthy (state_get st ''support_info'')"
  shows "run_graph reg st =
           Inr ((simple_response_node (orchestrator_node st))
                  \<lparr>response := (if messages st = [] then greeting_text else fallback_text)\<rparr>)"
proof -
  let ?s = "simple_response_node (orchestrator_node st)"
  have g: "state_get ?s k = state_get st k" for k
    by (simp add: simple_response_node_def orchestrator_node_def Let_def state_get_def)
  have m: "messages ?s = messages st"
    by (simp add: simple_response_node_def orchestrator_node_def Let_def)
  have r: "recommendations_section ?s = Inr []"
    using assms(2) by (simp add: recommendations_section_def Let_def g)
  have e: "inventory_section ?s = Inr []" "loyalty_section ?s = Inr []"
    "payment_section ?s = Inr []" "fulfillment_section ?s = Inr []" "support_section ?s = Inr []"
    using assms(3-7) by (simp_all add: g empty_sections)
  have p: "response_parts ?s = Inr [if messages st = [] then greeting_text else fallback_text]"
    using r e m by (simp add: response_parts_def Let_def)
  have route: "should_call_agents (orchestrator_node st) = ''simple_response''"
    using assms(1) by (simp add: should_call_agents_def)
  show ?thesis
    using route p by (simp add: run_graph_def Let_def synthesize_response_node_def)
qed

lemmas eval_replies = greeting_text_def fallback_text_def greeting_reply_def thanks_reply_def
  default_reply_def canned_replies_def

text \<open>
  C2. The request \<open>hello\<close> with an empty cart and no liked products selects no agent, and
  \<open>simple_response_node\<close> sets the greeting reply of the canned table. The run does not end
  there: the graph has an edge from \<open>simple_response\<close> to \<open>synthesize\<close>, and the
  synthesizer assigns \<open>response\<close> again, so the run ends with the synthesizer's own
  greeting, which is none of the canned replies.
\<close>

theorem canned_reply_is_overwritten:
  "agents_needed (orchestrator_node (example_state ''hello'' [])) = []
   \<and> response (simple_response_node (orchestrator_node (example_state ''hello'' []))) = greeting_reply
   \<and> map_sum id response (run_graph reg (example_state ''hello'' [])) = Inr greeting_text
   \<and> greeting_text \<notin> set canned_replies
   \<and> fallback_text \<notin> set canned_replies"
proof -
  let ?st = "example_state ''hello'' []"
  have l: "lower (current_request ?st) = ''hello''"
    by (simp add: example_state_def create_initial_state_def eval_text)
  have c: "cart ?st = []" "liked_products ?st = []" "messages ?st = []"
    by (simp_all add: example_state_def create_initial_state_def)
  have sel: "select_agents ?st = []"
    unfolding select_agents_def Let_def l c by (simp add: any_word_in_def eval_words)
  have e: "\<not> truthy (state_get ?st ''recommendations'')"
      "\<not> truthy (state_get ?st ''inventory_status'')"
      "\<not> truthy (state_get ?st ''loyalty_info'')"
      "\<not> truthy (state_get ?st ''payment_status'')"
      "\<not> truthy (state_get ?st ''fulfillment_info'')"
      "\<not> truthy (state_get ?st ''support_info'')"
    by (simp_all add: example_state_def create_initial_state_def state_get_def)
  have simple: "response (simple_response_node (orchestrator_node ?st)) = greeting_reply"
  proof -
    have "current_request (orchestrator_node ?st) = current_request ?st"
      by (simp add: orchestrator_node_def Let_def)
    with l show ?thesis by (simp add: simple_response_node_def Let_def any_word_in_def)
  qed
  have final: "map_sum id response (run_graph reg ?st) = Inr greeting_text"
    using no_agent_run[OF sel e, of reg] c by simp
  have n: "greeting_text \<notin> set canned_replies" "fallback_text \<notin> set canned_replies"
    by (simp_all add: eval_replies)
  from sel simple final n show ?thesis by simp
qed

section \<open>Properties of the dispatcher\<close>

subsection \<open>What a turn of an agent changes\<close>

lemma run_start_frame: "run_start a st = st\<lparr>agent_calls := agent_calls (run_start a st)\<rparr>"
  by (simp add: run_start_def)

lemma run_finish_frame:
  "fst (run_finish outcome st) = st\<lparr>agent_calls := agent_calls (fst (run_finish outcome st))\<rparr>"
  by (cases outcome) (simp_all add: run_finish_def)

lemma run_finish_result:
  "snd (run_finish outcome st) = (case outcome of Inl e \<Rightarrow> RDict [] | Inr res \<Rightarrow> res)"
  by (cases outcome) (simp_all add: run_finish_def)

lemma frame_trans:
  assumes "(t::agent_state) = s\<lparr>agent_calls := c\<rparr>" and "u = t\<lparr>agent_calls := c'\<rparr>"
  shows "u = s\<lparr>agent_calls := c'\<rparr>"
  using assms by simp

lemma first_turns_frame:
  "first_turns tasks st = (st', ts) \<Longrightarrow>
     (\<exists>calls. st' = st\<lparr>agent_calls := calls\<rparr>) \<and> list_all2 (task_of st) tasks ts"
proof (induction tasks arbitrary: st st' ts)
  case Nil
  then show ?case by (auto intro: exI[of _ "agent_calls st"])
next
  case (Cons a as)
  let ?s1 = "run_start a st"
  have s1: "?s1 = st\<lparr>agent_calls := agent_calls ?s1\<rparr>" by (rule run_start_frame)
  show ?case
  proof (cases "suspends a ?s1")
    case True
    obtain s2 ts2 where ft: "first_turns as ?s1 = (s2, ts2)" by (cases "first_turns as ?s1")
    from Cons.prems True ft have eq: "st' = s2" "ts = Pending (execute a ?s1) # ts2"
      by (simp_all add: Let_def)
    from Cons.IH[OF ft] obtain calls where
      c: "s2 = ?s1\<lparr>agent_calls := calls\<rparr>" and l: "list_all2 (task_of ?s1) as ts2" by blast
    have fr: "s2 = st\<lparr>agent_calls := calls\<rparr>" using s1 c by (rule frame_trans)
    have conv: "task_of ?s1 = task_of st"
      by (intro ext) (simp add: task_of_def contributed_by_def run_start_def split: task.splits)
    have "execute a ?s1 = execute a (st\<lparr>agent_calls := agent_calls ?s1\<rparr>)"
      by (simp add: run_start_def)
    then have hd: "task_of st a (Pending (execute a ?s1))"
      unfolding task_of_def by auto
    from fr l hd show ?thesis unfolding eq conv by auto
  next
    case False
    let ?f = "run_finish (execute a ?s1) ?s1"
    obtain s3 ts3 where ft: "first_turns as (fst ?f) = (s3, ts3)"
      by (cases "first_turns as (fst ?f)")
    from Cons.prems False ft have eq: "st' = s3" "ts = Done (snd ?f) # ts3"
      by (simp_all add: Let_def split: prod.splits)
    have f1: "fst ?f = ?s1\<lparr>agent_calls := agent_calls (fst ?f)\<rparr>" by (rule run_finish_frame)
    have f2: "fst ?f = st\<lparr>agent_calls := agent_calls (fst ?f)\<rparr>" using s1 f1 by (rule frame_trans)
    from Cons.IH[OF ft] obtain calls where
      c: "s3 = (fst ?f)\<lparr>agent_calls := calls\<rparr>" and l: "list_all2 (task_of (fst ?f)) as ts3"
      by blast
    have fr: "s3 = st\<lparr>agent_calls := calls\<rparr>" using f2 c by (rule frame_trans)
    have conv: "task_of (fst ?f) = task_of st"
    proof (intro ext)
      fix b t
      have "\<And>c. (fst ?f)\<lparr>agent_calls := c\<rparr> = st\<lparr>agent_calls := c\<rparr>"
        using f2 by (metis frame_trans)
      then show "task_of (fst ?f) b t = task_of st b t"
        by (simp add: task_of_def contributed_by_def split: task.splits)
    qed
    have ex: "execute a ?s1 = execute a (st\<lparr>agent_calls := agent_calls ?s1\<rparr>)"
      by (simp add: run_start_def)
    have hd: "task_of st a (Done (snd ?f))"
      unfolding task_of_def contributed_by_def run_finish_result
      by (simp, rule exI[of _ "agent_calls ?s1"], simp add: ex[symmetric])
    from fr l hd show ?thesis unfolding eq conv by auto
  qed
qed

lemma resume_turns_frame:
  "resume_turns ts st = (st', rs) \<Longrightarrow> list_all2 (task_of s0) tasks ts \<Longrightarrow>
     (\<exists>calls. st' = st\<lparr>agent_calls := calls\<rparr>) \<and> list_all2 (contributed_by s0) tasks rs"
proof (induction ts st arbitrary: st' rs tasks rule: resume_turns.induct)
  case (1 st)
  then show ?case by (auto intro: exI[of _ "agent_calls st"])
next
  case (2 r ts st)
  obtain s1 rs1 where rt: "resume_turns ts st = (s1, rs1)" by (cases "resume_turns ts st")
  from "2.prems"(1) rt have eq: "st' = s1" "rs = r # rs1" by simp_all
  from "2.prems"(2) obtain a as where t: "tasks = a # as" "task_of s0 a (Done r)"
    "list_all2 (task_of s0) as ts" by (cases tasks) auto
  from "2.IH"[OF rt t(3)] t(2) show ?case unfolding eq t(1) by (simp add: task_of_def)
next
  case (3 outcome ts st)
  let ?f = "run_finish outcome st"
  obtain s2 rs2 where rt: "resume_turns ts (fst ?f) = (s2, rs2)"
    by (cases "resume_turns ts (fst ?f)")
  from "3.prems"(1) rt have eq: "st' = s2" "rs = snd ?f # rs2"
    by (simp_all add: Let_def split: prod.splits)
  from "3.prems"(2) obtain a as where t: "tasks = a # as" "task_of s0 a (Pending outcome)"
    "list_all2 (task_of s0) as ts" by (cases tasks) auto
  have f1: "fst ?f = st\<lparr>agent_calls := agent_calls (fst ?f)\<rparr>" by (rule run_finish_frame)
  from "3.IH"[OF refl _ rt t(3)] obtain calls where
    c: "s2 = (fst ?f)\<lparr>agent_calls := calls\<rparr>" and l: "list_all2 (contributed_by s0) as rs2"
    by (metis prod.collapse)
  have fr: "s2 = st\<lparr>agent_calls := calls\<rparr>" using f1 c by (rule frame_trans)
  have hd: "contributed_by s0 a (snd ?f)"
    using t(2) unfolding task_of_def contributed_by_def run_finish_result by auto
  from fr l hd show ?case unfolding eq t(1) by auto
qed

lemma gather_frame:
  assumes "gather tasks st = (st', rs)"
  shows "(\<exists>calls. st' = st\<lparr>agent_calls := calls\<rparr>) \<and> list_all2 (contributed_by st) tasks rs"
proof -
  obtain s1 ts where ft: "first_turns tasks st = (s1, ts)" by (cases "first_turns tasks st")
  with assms have rt: "resume_turns ts s1 = (st', rs)" by (simp add: gather_def)
  from first_turns_frame[OF ft] obtain c1 where
    c1: "s1 = st\<lparr>agent_calls := c1\<rparr>" and l: "list_all2 (task_of st) tasks ts" by blast
  from resume_turns_frame[OF rt l] obtain c2 where
    c2: "st' = s1\<lparr>agent_calls := c2\<rparr>" and r: "list_all2 (contributed_by st) tasks rs" by blast
  from c1 c2 have "st' = st\<lparr>agent_calls := c2\<rparr>" by (rule frame_trans)
  with r show ?thesis by blast
qed

subsection \<open>What the merge changes\<close>

lemma store_all_other: "k \<notin> fst ` set kvs \<Longrightarrow> store_all m kvs k = m k"
  unfolding store_all_def by (induction kvs arbitrary: m) auto

lemma store_pairs_other:
  "store_pairs i m ds = Inr m' \<Longrightarrow> k \<notin> (\<Union>d\<in>set ds. fst ` set (take 1 d)) \<Longrightarrow> m' k = m k"
proof (induction ds arbitrary: i m)
  case Nil
  then show ?case by simp
next
  case (Cons d ds)
  from Cons.prems(1) obtain kv1 kv2 where d: "d = [kv1, kv2]"
    by (auto split: list.splits)
  with Cons.prems(1) have rec: "store_pairs (Suc i) (m(fst kv1 \<mapsto> PStr (fst kv2))) ds = Inr m'"
    by simp
  from Cons.prems(2) d have k1: "k \<noteq> fst kv1" and rest: "k \<notin> (\<Union>d\<in>set ds. fst ` set (take 1 d))"
    by auto
  from Cons.IH[OF rec rest] k1 show ?case by simp
qed

lemma state_update_other:
  "state_update st res = Inr st' \<Longrightarrow> k \<notin> written_keys res \<Longrightarrow> slots st' k = slots st k"
proof (cases res)
  case (RDict d)
  then show "state_update st res = Inr st' \<Longrightarrow> k \<notin> written_keys res \<Longrightarrow> slots st' k = slots st k"
    by (auto simp add: store_all_other)
next
  case (RList ds)
  assume u: "state_update st res = Inr st'" and k: "k \<notin> written_keys res"
  from u RList obtain m where m: "store_pairs 0 (slots st) ds = Inr m" and s: "st' = st\<lparr>slots := m\<rparr>"
    by (auto split: sum.splits)
  from k RList have "k \<notin> (\<Union>d\<in>set ds. fst ` set (take 1 d))" by simp
  from store_pairs_other[OF m this] s show "slots st' k = slots st k" by simp
qed

lemma state_update_frame:
  "state_update st res = Inr st' \<Longrightarrow> st' = st\<lparr>slots := slots st'\<rparr>"
  by (cases res) (auto split: sum.splits)

lemma merge_results_other:
  "merge_results st rs = Inr st' \<Longrightarrow> \<forall>res\<in>set rs. k \<notin> written_keys res \<Longrightarrow>
     slots st' k = slots st k"
proof (induction rs arbitrary: st)
  case Nil
  then show ?case by simp
next
  case (Cons res rs)
  show ?case
  proof (cases "result_nonempty res")
    case True
    with Cons.prems(1) obtain s1 where u: "state_update st res = Inr s1"
      and m: "merge_results s1 rs = Inr st'" by (auto split: sum.splits)
    from Cons.prems(2) have "k \<notin> written_keys res" "\<forall>res\<in>set rs. k \<notin> written_keys res" by simp_all
    with state_update_other[OF u] Cons.IH[OF m] show ?thesis by simp
  next
    case False
    with Cons.prems Cons.IH[of st] show ?thesis by simp
  qed
qed

lemma merge_results_frame:
  "merge_results st rs = Inr st' \<Longrightarrow> st' = st\<lparr>slots := slots st'\<rparr>"
proof (induction rs arbitrary: st)
  case Nil
  then show ?case by simp
next
  case (Cons res rs)
  show ?case
  proof (cases "result_nonempty res")
    case True
    with Cons.prems(1) obtain s1 where u: "state_update st res = Inr s1"
      and m: "merge_results s1 rs = Inr st'" by (auto split: sum.splits)
    from state_update_frame[OF u] Cons.IH[OF m] show ?thesis by (metis agent_state.update_convs(12) agent_state.surjective agent_state.select_convs)
  next
    case False
    with Cons.prems Cons.IH[of st] show ?thesis by simp
  qed
qed

subsection \<open>The keys the six agents return\<close>

lemma retry_loop_keys:
  "fst ` set (retry_loop r al amount gs hist) \<subseteq>
     {''success'', ''status'', ''amount'', ''gateway'', ''transaction_id'', ''retry_history'',
      ''total_time'', ''message''}"
  by (induction gs arbitrary: hist) (auto simp add: Let_def)

lemma payment_keys:
  "fst ` set (payment_execute r gws st) \<subseteq>
     {''success'', ''status'', ''amount'', ''gateway'', ''transaction_id'', ''retry_history'',
      ''total_time'', ''message''}"
  using retry_loop_keys[of r gws "calculate_total (cart st)" gws "[]"]
  by (auto simp add: payment_execute_def process_payment_with_retry_def Let_def)

lemma payment_no_slot: "fst ` set (payment_execute r gws st) \<inter> set result_slots = {}"
  using payment_keys[of r gws st] by (auto simp add: result_slots_def)

lemma recommendation_keys:
  "fst ` set (recommendation_execute ps st) = {''recommendations'', ''total_found''}"
  by (auto simp add: recommendation_execute_def Let_def)

lemma fulfillment_no_slot: "fst ` set (fulfillment_execute st) \<inter> set result_slots = {}"
  by (auto simp add: fulfillment_execute_def Let_def result_slots_def)

lemma support_no_slot: "fst ` set (support_execute st) \<inter> set result_slots = {}"
  by (auto simp add: support_execute_def Let_def result_slots_def handle_return_request_def
      handle_exchange_request_def provide_general_help_def)

lemma loyalty_no_slot:
  "loyalty_execute cs st = Inr res \<Longrightarrow> fst ` set res \<inter> set result_slots = {}"
  by (auto simp add: loyalty_execute_def Let_def result_slots_def split: sum.splits)

lemma inventory_no_slot: "written_keys (inventory_execute d st) \<inter> set result_slots = {}"
  by (auto simp add: inventory_execute_def Let_def result_slots_def check_stock_def
      check_cart_availability_def find_nearby_stores_def split: list.splits)

lemma registry_keys:
  assumes "a \<in> set (registry_agents (agents d r))" and "execute a s = Inr res"
  shows "written_keys res \<inter> set unwritten_slots = {}"
proof -
  have sub: "set unwritten_slots \<subseteq> set result_slots"
    by (simp add: unwritten_slots_def result_slots_def)
  from assms(1) consider
      "a = recommendation_agent (agents d r)" | "a = inventory_agent (agents d r)"
    | "a = payment_agent (agents d r)" | "a = fulfillment_agent (agents d r)"
    | "a = loyalty_agent (agents d r)" | "a = support_agent (agents d r)"
    by (auto simp add: registry_agents_def)
  then show ?thesis
  proof cases
    case 1
    with assms(2) have "res = RDict (recommendation_execute (rec_products d) s)"
      by (auto simp add: agents_def)
    then show ?thesis using recommendation_keys[of "rec_products d" s]
      by (auto simp add: unwritten_slots_def)
  next
    case 2
    with assms(2) have "res = inventory_execute d s" by (auto simp add: agents_def)
    with inventory_no_slot[of d s] sub show ?thesis by blast
  next
    case 3
    with assms(2) have "res = RDict (payment_execute r gateways s)"
      by (auto simp add: agents_def payment_agent_of_def)
    with payment_no_slot[of r gateways s] sub show ?thesis by auto
  next
    case 4
    with assms(2) have "res = RDict (fulfillment_execute s)" by (auto simp add: agents_def)
    with fulfillment_no_slot[of s] sub show ?thesis by auto
  next
    case 5
    with assms(2) obtain x where "loyalty_execute (customers d) s = Inr x" "res = RDict x"
      by (cases "loyalty_execute (customers d) s") (auto simp add: agents_def)
    with loyalty_no_slot[of "customers d" s x] sub show ?thesis by auto
  next
    case 6
    with assms(2) have "res = RDict (support_execute s)" by (auto simp add: agents_def)
    with support_no_slot[of s] sub show ?thesis by auto
  qed
qed

lemma selected_tasks_registry: "set (selected_tasks reg needed) \<subseteq> set (registry_agents reg)"
  by (auto simp add: selected_tasks_def registry_agents_def)

lemma dispatch_frame:
  assumes "call_agents_node (agents d r) st = Inr st'" and "k \<in> set unwritten_slots"
  shows "slots st' k = slots st k"
proof (cases "selected_tasks (agents d r) (agents_needed st) = []")
  case True
  with assms(1) show ?thesis by (simp add: call_agents_node_def)
next
  case False
  let ?tasks = "selected_tasks (agents d r) (agents_needed st)"
  obtain s1 rs where g: "gather ?tasks st = (s1, rs)" by (cases "gather ?tasks st")
  with assms(1) False have m: "merge_results s1 rs = Inr st'"
    by (simp add: call_agents_node_def Let_def)
  from gather_frame[OF g] obtain calls where s1: "s1 = st\<lparr>agent_calls := calls\<rparr>"
    and l: "list_all2 (contributed_by st) ?tasks rs" by blast
  have "\<forall>res\<in>set rs. k \<notin> written_keys res"
  proof
    fix res assume "res \<in> set rs"
    then obtain i where i: "i < length rs" "rs ! i = res" by (auto simp add: in_set_conv_nth)
    from l have len: "length ?tasks = length rs" by (rule list_all2_lengthD)
    from l i(1) have "contributed_by st (?tasks ! i) (rs ! i)" by (simp add: list_all2_conv_all_nth)
    with i(2) have c0: "contributed_by st (?tasks ! i) res" by simp
    from i(1) len have "?tasks ! i \<in> set ?tasks" by simp
    with c0 obtain a where a: "a \<in> set ?tasks" and c: "contributed_by st a res" by blast
    from a selected_tasks_registry have reg: "a \<in> set (registry_agents (agents d r))" by blast
    from c obtain cs where res: "res = (case execute a (st\<lparr>agent_calls := cs\<rparr>) of
        Inl e \<Rightarrow> RDict [] | Inr x \<Rightarrow> x)" unfolding contributed_by_def by blast
    show "k \<notin> written_keys res"
    proof (cases "execute a (st\<lparr>agent_calls := cs\<rparr>)")
      case (Inl e)
      with res show ?thesis by simp
    next
      case (Inr x)
      with res registry_keys[OF reg Inr] assms(2) show ?thesis by auto
    qed
  qed
  from merge_results_other[OF m this] s1 show ?thesis by simp
qed

text \<open>
  C8. For every run of the dispatcher with the six registered agents that returns, the
  slots \<open>inventory_status\<close>, \<open>payment_status\<close>, \<open>fulfillment_info\<close>, \<open>loyalty_info\<close> and
  \<open>support_info\<close> hold what they held before the run (\<open>None\<close> in a fresh state), because
  no result of any of the six agents has one of these keys; the recommendation agent's
  result does have the key \<open>recommendations\<close>.
\<close>

theorem only_recommendations_slot_is_assigned:
  assumes "call_agents_node (agents d r) st = Inr st'"
  shows "(\<forall>k\<in>set unwritten_slots. slots st' k = slots st k)
       \<and> (\<forall>a\<in>set (registry_agents (agents d r)). \<forall>s res.
             execute a s = Inr res \<longrightarrow> written_keys res \<inter> set unwritten_slots = {})
       \<and> (\<forall>s. execute (recommendation_agent (agents d r)) s
                 = Inr (RDict (recommendation_execute (rec_products d) s))
               \<and> ''recommendations'' \<in> fst ` set (recommendation_execute (rec_products d) s))"
proof -
  have a: "\<forall>k\<in>set unwritten_slots. slots st' k = slots st k"
    using dispatch_frame[OF assms] by blast
  have b: "\<forall>a\<in>set (registry_agents (agents d r)). \<forall>s res.
             execute a s = Inr res \<longrightarrow> written_keys res \<inter> set unwritten_slots = {}"
    using registry_keys by blast
  have c: "\<forall>s. execute (recommendation_agent (agents d r)) s
                 = Inr (RDict (recommendation_execute (rec_products d) s))
               \<and> ''recommendations'' \<in> fst ` set (recommendation_execute (rec_products d) s)"
    by (simp add: agents_def recommendation_keys)
  from a b c show ?thesis by blast
qed

lemma req_discount: "lower (current_request (example_state ''discount'' [])) = ''discount''"
  by (simp add: example_state_def create_initial_state_def eval_text)

lemma ctx_discount: "cart (example_state ''discount'' []) = []"
  "liked_products (example_state ''discount'' []) = []"
  by (simp_all add: example_state_def create_initial_state_def)

lemma sel_discount: "select_agents (example_state ''discount'' []) = [''loyalty'']"
  unfolding select_agents_def Let_def req_discount ctx_discount
  by (simp add: any_word_in_def eval_words)

lemma dict_results_merge:
  "\<forall>res\<in>set rs. \<exists>d. res = RDict d \<Longrightarrow> \<exists>st'. merge_results st rs = Inr st'"
  by (induction rs arbitrary: st) auto

lemma loyalty_contributes_dict:
  "contributed_by st (loyalty_agent (agents d r)) res \<Longrightarrow> \<exists>x. res = RDict x"
  unfolding contributed_by_def
  by (auto simp add: agents_def split: sum.splits) (metis map_sum.simps sum.exhaust sum.simps(4))

theorem only_recommendations_slot_is_assigned_witness:
  "slot_after (call_agents_node example_registry (orchestrator_node (example_state ''discount'' [])))
      ''loyalty_info'' = Some PNone
   \<and> slot_after (call_agents_node example_registry (orchestrator_node (example_state ''discount'' [])))
      ''payment_status'' = Some PNone
   \<and> agents_needed (orchestrator_node (example_state ''discount'' [])) = [''loyalty'']"
proof -
  let ?st = "orchestrator_node (example_state ''discount'' [])"
  let ?loy = "loyalty_agent (agents fallback_data (example_rng (1 / 2)))"
  have needed: "agents_needed ?st = [''loyalty'']" by (simp add: sel_discount)
  have tasks: "selected_tasks example_registry (agents_needed ?st) = [?loy]"
    unfolding needed by (simp add: selected_tasks_def example_registry_def)
  obtain s1 rs where g: "gather [?loy] ?st = (s1, rs)" by (cases "gather [?loy] ?st")
  from gather_frame[OF g] have "list_all2 (contributed_by ?st) [?loy] rs" by blast
  then obtain res where rs: "rs = [res]" and c: "contributed_by ?st ?loy res"
    by (auto simp add: list_all2_Cons1)
  from loyalty_contributes_dict[OF c] rs have "\<forall>res\<in>set rs. \<exists>d. res = RDict d" by simp
  from dict_results_merge[OF this] obtain st' where m: "merge_results s1 rs = Inr st'" by blast
  have run: "call_agents_node example_registry ?st = Inr st'"
    using tasks g m by (simp add: call_agents_node_def Let_def)
  have run': "call_agents_node (agents fallback_data (example_rng (1 / 2))) ?st = Inr st'"
    using run by (simp add: example_registry_def)
  have before: "slots ?st ''loyalty_info'' = Some PNone" "slots ?st ''payment_status'' = Some PNone"
    by (simp_all add: orchestrator_node_def Let_def example_state_def create_initial_state_def)
  from only_recommendations_slot_is_assigned[OF run']
  have "slots st' ''loyalty_info'' = slots ?st ''loyalty_info''"
    and "slots st' ''payment_status'' = slots ?st ''payment_status''"
    by (simp_all add: unwritten_slots_def)
  with before run needed show ?thesis by (simp add: slot_after_def)
qed

subsection \<open>The audit log during a dispatch\<close>

lemma run_start_calls: "agent_calls (run_start a st) = agent_calls st @ [processing_entry a]"
  by (simp add: run_start_def processing_entry_def)

lemma run_finish_calls:
  "agent_calls (fst (run_finish outcome st)) = update_last (agent_calls st) (finish_update outcome)"
  by (cases outcome) (simp_all add: run_finish_def finish_update_def)

lemma update_last_snoc: "update_last (xs @ [e]) kvs = xs @ [dict_update e kvs]"
  by (simp add: update_last_def)

lemma map_of_dict_update_other:
  "k \<notin> fst ` set kvs \<Longrightarrow> map_of (dict_update e kvs) k = map_of e k"
  unfolding dict_update_def
  by (induction kvs arbitrary: e) (auto simp add: update_conv')

lemma entry_agent_finish [simp]:
  "entry_agent (dict_update e (finish_update outcome)) = entry_agent e"
  unfolding entry_agent_def
  by (rule map_of_dict_update_other) (auto simp add: finish_update_def split: sum.splits)

lemma terminal_finish [simp]: "terminal_entry (dict_update e (finish_update outcome))"
  by (cases outcome)
     (simp_all add: terminal_entry_def entry_status_def finish_update_def dict_update_def
        update_conv')

lemma agent_entry_processing [simp]: "agent_entry (processing_entry a)"
  by (simp add: agent_entry_def entry_status_def processing_entry_def)

lemma entry_agent_processing [simp]: "entry_agent (processing_entry a) = Some (PStr (agent_name a))"
  by (simp add: entry_agent_def processing_entry_def)

text \<open>
  The first round appends one entry per task, in launch order: a finished one for a task
  that ran to its end, one still \<open>processing\<close> for a task left pending.
\<close>

lemma first_turns_calls:
  "first_turns tasks st = (st', ts) \<Longrightarrow>
     \<exists>new. agent_calls st' = agent_calls st @ new
         \<and> map entry_agent new = map (\<lambda>a. Some (PStr (agent_name a))) tasks
         \<and> list_all agent_entry new
         \<and> ((\<forall>a\<in>set tasks. \<forall>calls. \<not> suspends a (st\<lparr>agent_calls := calls\<rparr>)) \<longrightarrow>
              list_all terminal_entry new \<and> (\<forall>t\<in>set ts. \<exists>res. t = Done res))"
proof (induction tasks arbitrary: st st' ts)
  case Nil
  then show ?case by auto
next
  case (Cons a as)
  let ?s1 = "run_start a st"
  show ?case
  proof (cases "suspends a ?s1")
    case True
    obtain s2 ts2 where ft: "first_turns as ?s1 = (s2, ts2)" by (cases "first_turns as ?s1")
    from Cons.prems True ft have eq: "st' = s2" by (simp add: Let_def)
    from Cons.IH[OF ft] obtain new where
      n: "agent_calls s2 = agent_calls ?s1 @ new"
         "map entry_agent new = map (\<lambda>a. Some (PStr (agent_name a))) as"
         "list_all agent_entry new" by blast
    have "run_start a st = st\<lparr>agent_calls := agent_calls ?s1\<rparr>" by (rule run_start_frame)
    with True have ns: "\<not> (\<forall>a\<in>set (a # as). \<forall>calls. \<not> suspends a (st\<lparr>agent_calls := calls\<rparr>))"
      by (metis list.set_intros(1))
    have a1: "agent_calls s2 = agent_calls st @ (processing_entry a # new)"
      using n(1) by (simp add: run_start_calls)
    have a2: "map entry_agent (processing_entry a # new)
                = map (\<lambda>a. Some (PStr (agent_name a))) (a # as)"
      using n(2) by simp
    have a3: "list_all agent_entry (processing_entry a # new)" using n(3) by simp
    from a1 a2 a3 ns show ?thesis unfolding eq by blast
  next
    case False
    let ?f = "run_finish (execute a ?s1) ?s1"
    let ?e = "dict_update (processing_entry a) (finish_update (execute a ?s1))"
    obtain s3 ts3 where ft: "first_turns as (fst ?f) = (s3, ts3)"
      by (cases "first_turns as (fst ?f)")
    from Cons.prems False ft have eq: "st' = s3" "ts = Done (snd ?f) # ts3"
      by (simp_all add: Let_def split: prod.splits)
    have c: "agent_calls (fst ?f) = agent_calls st @ [?e]"
      by (simp add: run_finish_calls run_start_calls update_last_snoc)
    from Cons.IH[OF ft] obtain new where
      n: "agent_calls s3 = agent_calls (fst ?f) @ new"
         "map entry_agent new = map (\<lambda>a. Some (PStr (agent_name a))) as"
         "list_all agent_entry new"
         "(\<forall>a\<in>set as. \<forall>calls. \<not> suspends a ((fst ?f)\<lparr>agent_calls := calls\<rparr>)) \<longrightarrow>
              list_all terminal_entry new \<and> (\<forall>t\<in>set ts3. \<exists>res. t = Done res)" by blast
    have fr: "(fst ?f)\<lparr>agent_calls := calls\<rparr> = st\<lparr>agent_calls := calls\<rparr>" for calls
    proof -
      have "fst ?f = ?s1\<lparr>agent_calls := agent_calls (fst ?f)\<rparr>" by (rule run_finish_frame)
      moreover have "?s1 = st\<lparr>agent_calls := agent_calls ?s1\<rparr>" by (rule run_start_frame)
      ultimately show ?thesis by (metis frame_trans)
    qed
    have t: "terminal_entry ?e" by simp
    then have v: "agent_entry ?e" by (simp add: agent_entry_def)
    from n c t v show ?thesis unfolding eq fr
      by (intro exI[of _ "?e # new"]) auto
  qed
qed

text \<open>
  Resuming a pending task updates the entry that is last in the log then. The log keeps
  its length and the agent named by each entry.
\<close>

lemma update_last_agents:
  "map entry_agent (update_last xs (finish_update outcome)) = map entry_agent xs"
  by (cases xs rule: rev_cases) (simp_all add: update_last_def)

lemma update_last_entries:
  assumes "xs = pre @ new" and "new \<noteq> []" and "list_all agent_entry new"
  shows "\<exists>new'. update_last xs (finish_update outcome) = pre @ new'
            \<and> length new' = length new \<and> list_all agent_entry new'"
proof -
  from assms(2) obtain ys e where new: "new = ys @ [e]" by (cases new rule: rev_cases) auto
  have "update_last xs (finish_update outcome)
          = pre @ (ys @ [dict_update e (finish_update outcome)])"
    using assms(1) new update_last_snoc[of "pre @ ys" e] by simp
  moreover have "list_all agent_entry (ys @ [dict_update e (finish_update outcome)])"
    using assms(3) new by (simp add: agent_entry_def)
  ultimately show ?thesis using new by (intro exI[of _ "ys @ [dict_update e (finish_update outcome)]"]) simp
qed

lemma resume_turns_agents:
  "resume_turns ts st = (st', rs) \<Longrightarrow>
     map entry_agent (agent_calls st') = map entry_agent (agent_calls st)"
proof (induction ts st arbitrary: st' rs rule: resume_turns.induct)
  case (1 st)
  then show ?case by simp
next
  case (2 r ts st)
  then show ?case by (auto split: prod.splits)
next
  case (3 outcome ts st)
  let ?f = "run_finish outcome st"
  obtain s2 rs2 where rt: "resume_turns ts (fst ?f) = (s2, rs2)"
    by (cases "resume_turns ts (fst ?f)")
  from "3.prems" rt have eq: "st' = s2" by (simp add: Let_def split: prod.splits)
  from "3.IH"[OF refl _ rt] have "map entry_agent (agent_calls s2) = map entry_agent (agent_calls (fst ?f))"
    by (metis prod.collapse)
  then show ?case unfolding eq by (simp add: run_finish_calls update_last_agents)
qed

lemma resume_turns_entries:
  "resume_turns ts st = (st', rs) \<Longrightarrow> agent_calls st = pre @ new \<Longrightarrow> new \<noteq> [] \<Longrightarrow>
     list_all agent_entry new \<Longrightarrow>
     \<exists>new'. agent_calls st' = pre @ new' \<and> length new' = length new \<and> list_all agent_entry new'"
proof (induction ts st arbitrary: st' rs new rule: resume_turns.induct)
  case (1 st)
  then show ?case by auto
next
  case (2 r ts st)
  obtain s1 rs1 where rt: "resume_turns ts st = (s1, rs1)" by (cases "resume_turns ts st")
  from "2.prems"(1) rt have eq: "st' = s1" by simp
  from "2.IH"[OF rt "2.prems"(2-4)] show ?case unfolding eq .
next
  case (3 outcome ts st)
  let ?f = "run_finish outcome st"
  obtain s2 rs2 where rt: "resume_turns ts (fst ?f) = (s2, rs2)"
    by (cases "resume_turns ts (fst ?f)")
  from "3.prems"(1) rt have eq: "st' = s2" by (simp add: Let_def split: prod.splits)
  from update_last_entries[OF "3.prems"(2-4), of outcome] obtain new1 where
    n1: "agent_calls (fst ?f) = pre @ new1" "length new1 = length new" "list_all agent_entry new1"
    by (auto simp add: run_finish_calls)
  from n1(2) "3.prems"(3) have ne: "new1 \<noteq> []" by auto
  from "3.IH"[OF refl _ rt n1(1) ne n1(3)] n1(2) show ?case unfolding eq
    by (metis prod.collapse)
qed

lemma resume_turns_done:
  "\<forall>t\<in>set ts. \<exists>res. t = Done res \<Longrightarrow> fst (resume_turns ts st) = st"
  by (induction ts st rule: resume_turns.induct) (auto split: prod.splits)

lemma selected_tasks_length:
  assumes "distinct needed" and "set needed \<subseteq> set (map fst keyword_groups)"
  shows "length (selected_tasks reg needed) = length needed"
proof -
  let ?ids = "map fst keyword_groups"
  have d: "distinct ?ids" by (simp add: keyword_groups_def)
  have "length (selected_tasks reg needed) = length (filter (\<lambda>i. i \<in> set needed) ?ids)"
    by (simp add: selected_tasks_def keyword_groups_def)
  also have "\<dots> = card ({i. i \<in> set needed} \<inter> set ?ids)"
    using d by (rule distinct_length_filter)
  also have "{i. i \<in> set needed} \<inter> set ?ids = set needed" using assms(2) by auto
  also have "card (set needed) = length needed" using assms(1) by (rule distinct_card)
  finally show ?thesis .
qed

lemma select_agents_ids: "set (select_agents st) \<subseteq> set (map fst keyword_groups)"
  by (auto simp add: select_agents_spec spec_classify_def Let_def matched_groups_def
      keyword_groups_def split: if_splits)

lemma select_agents_distinct: "distinct (select_agents st)"
  by (simp add: select_agents_spec spec_classify_def Let_def)

lemma registry_suspends:
  "a \<in> set (registry_agents (agents d r)) \<Longrightarrow> suspends a s \<Longrightarrow> payment_requested s"
  by (auto simp add: registry_agents_def agents_def payment_agent_of_def)

lemma payment_requested_frame [simp]:
  "payment_requested (st\<lparr>agent_calls := calls\<rparr>) = payment_requested st"
  by (simp add: payment_requested_def)

lemma payment_requested_orchestrator [simp]:
  "payment_requested (orchestrator_node st) = payment_requested st"
  by (simp add: payment_requested_def orchestrator_node_def Let_def)

lemma orchestrator_calls:
  "agent_calls (orchestrator_node st) = agent_calls st @
     [[(''agent'', PStr ''orchestrator''), (''action'', PStr ''analyzed_request''),
       (''agents_to_call'', PList (map PStr (select_agents st)))]]"
  by (simp add: orchestrator_node_def Let_def)

text \<open>
  All tasks together append one entry per task, in launch order, and remove none. When no
  task gives control back, every one of these entries holds \<open>success\<close> or \<open>failed\<close>.
\<close>

lemma gather_calls:
  assumes "gather tasks st = (st', rs)"
  shows "\<exists>new. agent_calls st' = agent_calls st @ new
         \<and> map entry_agent new = map (\<lambda>a. Some (PStr (agent_name a))) tasks
         \<and> list_all agent_entry new
         \<and> ((\<forall>a\<in>set tasks. \<forall>calls. \<not> suspends a (st\<lparr>agent_calls := calls\<rparr>)) \<longrightarrow>
              list_all terminal_entry new)"
proof -
  obtain s1 ts where ft: "first_turns tasks st = (s1, ts)" by (cases "first_turns tasks st")
  with assms have rt: "resume_turns ts s1 = (st', rs)" by (simp add: gather_def)
  from first_turns_calls[OF ft] obtain new where
    n: "agent_calls s1 = agent_calls st @ new"
       "map entry_agent new = map (\<lambda>a. Some (PStr (agent_name a))) tasks"
       "list_all agent_entry new"
       "(\<forall>a\<in>set tasks. \<forall>calls. \<not> suspends a (st\<lparr>agent_calls := calls\<rparr>)) \<longrightarrow>
              list_all terminal_entry new \<and> (\<forall>t\<in>set ts. \<exists>res. t = Done res)" by blast
  show ?thesis
  proof (cases "new = []")
    case True
    from resume_turns_agents[OF rt] n(1) True
    have "length (agent_calls st') = length (agent_calls st)" by (metis append_Nil2 length_map)
    moreover from resume_turns_agents[OF rt] n(1) True
    have m: "map entry_agent (agent_calls st') = map entry_agent (agent_calls st)" by simp
    from n(2) True have "tasks = []" by simp
    with ft have "ts = []" "s1 = st" by simp_all
    with rt have "st' = st" by simp
    with n(2) True show ?thesis by simp
  next
    case False
    from resume_turns_entries[OF rt n(1) False n(3)] obtain new' where
      n': "agent_calls st' = agent_calls st @ new'" "length new' = length new"
          "list_all agent_entry new'" by blast
    have agents': "map entry_agent new' = map (\<lambda>a. Some (PStr (agent_name a))) tasks"
    proof -
      from resume_turns_agents[OF rt] n(1) n'(1)
      have "map entry_agent (agent_calls st @ new') = map entry_agent (agent_calls st @ new)" by simp
      then have "map entry_agent new' = map entry_agent new" by simp
      with n(2) show ?thesis by simp
    qed
    have fin: "list_all terminal_entry new'"
      if ns: "\<forall>a\<in>set tasks. \<forall>calls. \<not> suspends a (st\<lparr>agent_calls := calls\<rparr>)"
    proof -
      from n(4) ns have t: "list_all terminal_entry new" and dn: "\<forall>t\<in>set ts. \<exists>res. t = Done res"
        by blast+
      from resume_turns_done[OF dn, of s1] rt have "st' = s1" by simp
      with n(1) n'(1) have "new' = new" by simp
      with t show ?thesis by simp
    qed
    from n' agents' fin show ?thesis by blast
  qed
qed

subsection \<open>The run of the request \<open>pay\<close>\<close>

lemma store_all_conv: "store_all m kvs = m ++ map_of (rev kvs)"
proof (induction kvs arbitrary: m)
  case Nil
  then show ?case by (simp add: store_all_def)
next
  case (Cons kv kvs)
  have "store_all m (kv # kvs) = store_all (m(fst kv \<mapsto> snd kv)) kvs" by (simp add: store_all_def)
  also have "\<dots> = m(fst kv \<mapsto> snd kv) ++ map_of (rev kvs)" by (rule Cons.IH)
  also have "\<dots> = m ++ map_of (rev (kv # kvs))" by (cases kv) (simp add: map_add_upd_left)
  finally show ?case .
qed

lemma merge_two_dicts:
  "d1 \<noteq> [] \<Longrightarrow> d2 \<noteq> [] \<Longrightarrow>
     merge_results st [RDict d1, RDict d2] = Inr (st\<lparr>slots := store_all (store_all (slots st) d1) d2\<rparr>)"
  by simp

lemma pay_state_fields:
  "lower (current_request example_pay_state) = ''pay''" "cart example_pay_state = []"
  "customer_id example_pay_state = ''CUST001''" "liked_products example_pay_state = []"
  "agent_calls (example_state ''pay'' []) = []"
  by (simp_all add: example_pay_state_def orchestrator_node_def Let_def example_state_def
      create_initial_state_def eval_text)

lemma pay_state_needed: "agents_needed example_pay_state = [''payment'', ''loyalty'']"
proof -
  have "lower (current_request (example_state ''pay'' [])) = ''pay''"
    "cart (example_state ''pay'' []) = []" "liked_products (example_state ''pay'' []) = []"
    by (simp_all add: example_state_def create_initial_state_def eval_text)
  then have "select_agents (example_state ''pay'' []) = [''payment'', ''loyalty'']"
    unfolding select_agents_def Let_def by (simp add: any_word_in_def eval_words)
  then show ?thesis by (simp add: example_pay_state_def)
qed

lemma pay_state_requested: "payment_requested example_pay_state"
  unfolding payment_requested_def Let_def pay_state_fields by simp

lemma payment_execute_frame [simp]:
  "payment_execute r gws (st\<lparr>agent_calls := calls\<rparr>) = payment_execute r gws st"
  by (simp add: payment_execute_def)

lemma loyalty_execute_frame [simp]:
  "loyalty_execute cs (st\<lparr>agent_calls := calls\<rparr>) = loyalty_execute cs st"
  by (simp add: loyalty_execute_def)

lemma example_payment_status:
  "map_of example_payment_result ''status'' = Some (PStr ''completed'')"
  "map_of (rev example_payment_result) ''status'' = Some (PStr ''completed'')"
  "example_payment_result \<noteq> []"
  unfolding example_payment_result_def payment_execute_def Let_def
  using pay_state_requested
  by (simp_all add: process_payment_with_retry_def eval_payment Let_def)

lemma example_loyalty_value:
  "loyalty_execute (customers fallback_data) example_pay_state = Inr example_loyalty_result"
  "map_of example_loyalty_result ''status'' = Some (PStr ''calculated'')"
  "map_of (rev example_loyalty_result) ''status'' = Some (PStr ''calculated'')"
  "example_loyalty_result \<noteq> []"
  unfolding example_loyalty_result_def
  by (simp_all add: loyalty_execute_def Let_def fallback_data_def dict_get_def cart_value_def
      min_with_float_def py_sub_def pay_state_fields)

text \<open>
  C1. On the request \<open>pay\<close> the dispatcher runs the payment agent and the loyalty agent.
  Both results carry the key \<open>status\<close> (and neither carries a slot of its own), so
  \<open>state.update\<close> writes the same key of the state twice: merged in launch order the
  state ends with the loyalty agent's \<open>status\<close>, merged in the other order with the
  payment agent's.
\<close>

theorem payment_and_loyalty_write_the_same_key:
  "agents_needed example_pay_state = [''payment'', ''loyalty'']
   \<and> execute (payment_agent example_registry) example_pay_state = Inr (RDict example_payment_result)
   \<and> execute (loyalty_agent example_registry) example_pay_state = Inr (RDict example_loyalty_result)
   \<and> map_of example_payment_result ''status'' = Some (PStr ''completed'')
   \<and> map_of example_loyalty_result ''status'' = Some (PStr ''calculated'')
   \<and> slot_after (merge_results example_pay_state
                    [RDict example_payment_result, RDict example_loyalty_result]) ''status''
       = Some (PStr ''calculated'')
   \<and> slot_after (merge_results example_pay_state
                    [RDict example_loyalty_result, RDict example_payment_result]) ''status''
       = Some (PStr ''completed'')
   \<and> slot_after (call_agents_node example_registry example_pay_state) ''status''
       = Some (PStr ''calculated'')
   \<and> slot_after (call_agents_node example_registry example_pay_state) ''payment_status''
       = Some PNone"
proof -
  let ?reg = "agents fallback_data (example_rng (1 / 2))"
  let ?P = example_payment_result
  let ?L = example_loyalty_result
  have ex_pay: "execute (payment_agent ?reg) s = Inr (RDict (payment_execute (example_rng (1 / 2)) gateways s))"
    for s by (simp add: agents_def payment_agent_of_def)
  have ex_loy: "execute (loyalty_agent ?reg) s
      = map_sum id RDict (loyalty_execute (customers fallback_data) s)" for s
    by (simp add: agents_def)
  have e1: "execute (payment_agent example_registry) example_pay_state = Inr (RDict ?P)"
    by (simp add: example_registry_def ex_pay example_payment_result_def)
  have e2: "execute (loyalty_agent example_registry) example_pay_state = Inr (RDict ?L)"
    by (simp add: example_registry_def ex_loy example_loyalty_value)
  have m1: "slot_after (merge_results s [RDict ?P, RDict ?L]) ''status'' = Some (PStr ''calculated'')"
    for s
    by (simp add: merge_two_dicts example_payment_status example_loyalty_value slot_after_def
        store_all_conv)
  have m2: "slot_after (merge_results s [RDict ?L, RDict ?P]) ''status'' = Some (PStr ''completed'')"
    for s
    by (simp add: merge_two_dicts example_payment_status example_loyalty_value slot_after_def
        store_all_conv)
  have tasks: "selected_tasks ?reg (agents_needed example_pay_state)
                 = [payment_agent ?reg, loyalty_agent ?reg]"
    by (simp add: pay_state_needed selected_tasks_def)
  obtain s2 rs where g: "gather [payment_agent ?reg, loyalty_agent ?reg] example_pay_state = (s2, rs)"
    by (cases "gather [payment_agent ?reg, loyalty_agent ?reg] example_pay_state")
  from gather_frame[OF g] obtain calls where s2: "s2 = example_pay_state\<lparr>agent_calls := calls\<rparr>"
    and l: "list_all2 (contributed_by example_pay_state) [payment_agent ?reg, loyalty_agent ?reg] rs"
    by blast
  from l obtain r1 r2 where rs: "rs = [r1, r2]"
    and c1: "contributed_by example_pay_state (payment_agent ?reg) r1"
    and c2: "contributed_by example_pay_state (loyalty_agent ?reg) r2"
    by (auto simp add: list_all2_Cons1)
  have r1: "r1 = RDict ?P"
    using c1 by (auto simp add: contributed_by_def ex_pay example_payment_result_def)
  have r2: "r2 = RDict ?L"
    using c2 by (auto simp add: contributed_by_def ex_loy example_loyalty_value)
  have run: "call_agents_node example_registry example_pay_state
               = merge_results s2 [RDict ?P, RDict ?L]"
    using tasks g rs r1 r2 by (simp add: call_agents_node_def example_registry_def Let_def)
  have frame: "slot_after (call_agents_node example_registry example_pay_state) ''payment_status''
                 = Some PNone"
    unfolding run
    by (simp add: merge_two_dicts example_payment_status example_loyalty_value slot_after_def
        store_all_conv s2 map_add_def example_pay_state_def orchestrator_node_def Let_def
        example_state_def create_initial_state_def)
       (simp add: example_loyalty_result_def example_payment_result_def loyalty_execute_def Let_def
        fallback_data_def dict_get_def cart_value_def min_with_float_def py_sub_def
        payment_execute_def process_payment_with_retry_def eval_payment pay_state_fields
        payment_requested_def example_pay_state_def[symmetric] split: option.splits)
  from pay_state_needed e1 e2 example_payment_status(1) example_loyalty_value(2) m1 m2 run frame
  show ?thesis by simp
qed

subsection \<open>The audit log when the payment agent gives control back\<close>

text \<open>
  Two tasks, the first of which gives control back while the second runs to its end: the
  first task finishes last, and its update goes to the entry of the second.
\<close>

lemma gather_pending_then_done:
  assumes "suspends a (run_start a st)" and "\<not> suspends b (run_start b (run_start a st))"
  shows "agent_calls (fst (gather [a, b] st)) = agent_calls st @
           [processing_entry a,
            dict_update (dict_update (processing_entry b)
                                     (finish_update (execute b (run_start b (run_start a st)))))
                        (finish_update (execute a (run_start a st)))]"
proof -
  let ?s1 = "run_start a st"
  let ?s2 = "run_start b ?s1"
  let ?fb = "run_finish (execute b ?s2) ?s2"
  let ?fa = "run_finish (execute a ?s1) (fst ?fb)"
  have "first_turns [b] ?s1 = (fst ?fb, [Done (snd ?fb)])"
    using assms(2) by (simp add: Let_def case_prod_beta)
  then have ft: "first_turns [a, b] st = (fst ?fb, [Pending (execute a ?s1), Done (snd ?fb)])"
    using assms(1) by (simp add: Let_def del: first_turns.simps(2)[of b])
  have "fst (gather [a, b] st) = fst ?fa"
    unfolding gather_def ft by (simp add: Let_def case_prod_beta)
  moreover have "agent_calls (fst ?fb) = agent_calls st @
      [processing_entry a, dict_update (processing_entry b) (finish_update (execute b ?s2))]"
    using update_last_snoc[of "agent_calls st @ [processing_entry a]" "processing_entry b"]
    by (simp add: run_finish_calls run_start_calls)
  moreover have "agent_calls (fst ?fa) = update_last (agent_calls (fst ?fb)) (finish_update (execute a ?s1))"
    by (rule run_finish_calls)
  ultimately show ?thesis
    using update_last_snoc[of "agent_calls st @ [processing_entry a]"
        "dict_update (processing_entry b) (finish_update (execute b ?s2))"
        "finish_update (execute a ?s1)"]
    by simp
qed

text \<open>
  C3. On the request \<open>pay\<close> the dispatcher runs two agents, the payment agent and the
  loyalty agent, and to whatever log it is given it appends two entries, one per agent in
  launch order. The payment agent gives control back in its first attempt; the loyalty
  agent then runs to its end and sets the last entry, its own, to \<open>success\<close>. When the
  payment agent finishes, the last entry is still the loyalty agent's, and that is the
  entry it updates. So the loyalty agent's entry is updated twice and ends with the
  payment agent's result in the place of its own, and the payment agent's entry is never
  updated: it holds \<open>processing\<close> when the dispatch ends. The log the dispatcher is given
  already holds an entry of the classifier, which is no agent invocation.
\<close>

theorem payment_entry_is_never_finished:
  "agents_needed example_pay_state = [''payment'', ''loyalty'']
   \<and> agent_calls example_pay_state =
       [[(''agent'', PStr ''orchestrator''), (''action'', PStr ''analyzed_request''),
         (''agents_to_call'', PList [PStr ''payment'', PStr ''loyalty''])]]
   \<and> calls_after (call_agents_node example_registry (example_pay_state\<lparr>agent_calls := calls\<rparr>))
       = calls @
         [[(''agent'', PStr ''Payment Agent''), (''status'', PStr ''processing'')],
          [(''agent'', PStr ''Loyalty Agent''), (''status'', PStr ''success''),
           (''result'', PDict example_payment_result)]]
   \<and> dict_update (dict_update (processing_entry (loyalty_agent example_registry))
                              (finish_update (execute (loyalty_agent example_registry)
                                                      example_pay_state)))
                  (finish_update (execute (payment_agent example_registry) example_pay_state))
       = [(''agent'', PStr ''Loyalty Agent''), (''status'', PStr ''success''),
          (''result'', PDict example_payment_result)]
   \<and> execute (loyalty_agent example_registry) example_pay_state
       = Inr (RDict example_loyalty_result)
   \<and> example_loyalty_result \<noteq> example_payment_result
   \<and> \<not> terminal_entry [(''agent'', PStr ''Payment Agent''), (''status'', PStr ''processing'')]"
proof -
  let ?reg = "agents fallback_data (example_rng (1 / 2))"
  let ?pay = "payment_agent ?reg"
  let ?loy = "loyalty_agent ?reg"
  let ?P = example_payment_result
  let ?L = example_loyalty_result
  let ?st = "example_pay_state\<lparr>agent_calls := calls\<rparr>"
  have names: "agent_name ?pay = ''Payment Agent''" "agent_name ?loy = ''Loyalty Agent''"
    by (simp_all add: agents_def payment_agent_of_def)
  have ex_pay: "execute ?pay (s\<lparr>agent_calls := c\<rparr>) = Inr (RDict (payment_execute (example_rng (1 / 2)) gateways s))"
    for s c by (simp add: agents_def payment_agent_of_def)
  have ex_loy: "execute ?loy (s\<lparr>agent_calls := c\<rparr>)
      = map_sum id RDict (loyalty_execute (customers fallback_data) s)" for s c
    by (simp add: agents_def)
  have e1: "execute ?pay (example_pay_state\<lparr>agent_calls := c\<rparr>) = Inr (RDict ?P)" for c
    by (simp add: ex_pay example_payment_result_def)
  have e2: "execute ?loy (example_pay_state\<lparr>agent_calls := c\<rparr>) = Inr (RDict ?L)" for c
    by (simp add: ex_loy example_loyalty_value)
  have e1': "execute ?pay example_pay_state = Inr (RDict ?P)"
    using e1[of "agent_calls example_pay_state"] by simp
  have e2': "execute ?loy example_pay_state = Inr (RDict ?L)"
    using e2[of "agent_calls example_pay_state"] by simp
  have tasks: "selected_tasks ?reg (agents_needed ?st) = [?pay, ?loy]"
    by (simp add: pay_state_needed selected_tasks_def)
  have susp: "suspends ?pay (run_start ?pay ?st)"
    using pay_state_requested
    by (simp add: agents_def payment_agent_of_def run_start_def gateways_def)
  have nosusp: "\<not> suspends ?loy (run_start ?loy (run_start ?pay ?st))"
    by (simp add: agents_def)
  have r1: "execute ?pay (run_start ?pay ?st) = Inr (RDict ?P)"
    by (simp add: run_start_def e1)
  have r2: "execute ?loy (run_start ?loy (run_start ?pay ?st)) = Inr (RDict ?L)"
    by (simp add: run_start_def e2)
  have entry: "dict_update (dict_update (processing_entry ?loy) (finish_update (Inr (RDict ?L))))
                           (finish_update (Inr (RDict ?P)))
      = [(''agent'', PStr ''Loyalty Agent''), (''status'', PStr ''success''), (''result'', PDict ?P)]"
    by (simp add: processing_entry_def finish_update_def dict_update_def names)
  have calls: "agent_calls (fst (gather [?pay, ?loy] ?st)) = calls @
     [[(''agent'', PStr ''Payment Agent''), (''status'', PStr ''processing'')],
      [(''agent'', PStr ''Loyalty Agent''), (''status'', PStr ''success''), (''result'', PDict ?P)]]"
    unfolding gather_pending_then_done[OF susp nosusp] r1 r2 entry
    by (simp add: processing_entry_def names)
  obtain s2 rs where g: "gather [?pay, ?loy] ?st = (s2, rs)" by (cases "gather [?pay, ?loy] ?st")
  from gather_frame[OF g] have l: "list_all2 (contributed_by ?st) [?pay, ?loy] rs" by blast
  from l obtain q1 q2 where rs: "rs = [q1, q2]"
    and c1: "contributed_by ?st ?pay q1" and c2: "contributed_by ?st ?loy q2"
    by (auto simp add: list_all2_Cons1)
  have q1: "q1 = RDict ?P" using c1 by (auto simp add: contributed_by_def e1)
  have q2: "q2 = RDict ?L" using c2 by (auto simp add: contributed_by_def e2)
  have run: "call_agents_node ?reg ?st
               = Inr (s2\<lparr>slots := store_all (store_all (slots s2) ?P) ?L\<rparr>)"
    using tasks g rs q1 q2 example_payment_status(3) example_loyalty_value(4)
    by (simp add: call_agents_node_def Let_def)
  have log: "calls_after (call_agents_node example_registry ?st) = calls @
     [[(''agent'', PStr ''Payment Agent''), (''status'', PStr ''processing'')],
      [(''agent'', PStr ''Loyalty Agent''), (''status'', PStr ''success''), (''result'', PDict ?P)]]"
    using run g calls by (simp add: calls_after_def example_registry_def)
  have orch: "agent_calls example_pay_state =
     [[(''agent'', PStr ''orchestrator''), (''action'', PStr ''analyzed_request''),
       (''agents_to_call'', PList [PStr ''payment'', PStr ''loyalty''])]]"
    using pay_state_needed
    by (simp add: example_pay_state_def orchestrator_calls pay_state_fields)
  have differ: "?L \<noteq> ?P"
    using example_payment_status(1) example_loyalty_value(2) by auto
  have open_entry:
    "\<not> terminal_entry [(''agent'', PStr ''Payment Agent''), (''status'', PStr ''processing'')]"
    by (simp add: terminal_entry_def entry_status_def)
  from pay_state_needed orch log entry e1' e2' differ open_entry show ?thesis
    by (simp add: example_registry_def)
qed

subsection \<open>A failing agent next to the suspended payment agent\<close>

lemma bad_loyalty_raises:
  "customer_id s = ''CUST001'' \<Longrightarrow>
   execute (loyalty_agent bad_registry) s =
     Inl (TypeError ([CHR 0x27] @ ''<'' @ [CHR 0x27] @ '' not supported between instances of ''
                     @ [CHR 0x27] @ ''float'' @ [CHR 0x27] @ '' and '' @ [CHR 0x27] @ ''NoneType''
                     @ [CHR 0x27]))"
  by (simp add: bad_registry_def agents_def loyalty_execute_def Let_def dict_get_def
      min_with_float_def)

lemma bad_payment_result:
  "execute (payment_agent bad_registry) (st\<lparr>agent_calls := calls\<rparr>)
     = Inr (RDict (payment_execute (example_rng (1 / 2)) gateways st))"
  by (simp add: bad_registry_def agents_def payment_agent_of_def)

text \<open>
  C6. With a customer record whose \<open>loyalty_points\<close> is \<open>None\<close>, the loyalty agent raises on
  the request \<open>pay\<close>. Its entry is set to \<open>failed\<close> with the error text, and it contributes
  the empty dictionary; but the payment agent, launched before it and suspended in its
  first attempt, finishes later and updates the last entry of the log, which is the
  loyalty agent's. When the dispatcher returns, the entry of the agent that failed holds
  the status \<open>success\<close> and the payment result, next to its error text, and the payment
  agent's own entry still holds \<open>processing\<close>.
\<close>

theorem failed_entry_is_overwritten_by_resumed_agent:
  "agents_needed example_pay_state = [''payment'', ''loyalty'']
   \<and> execute (loyalty_agent bad_registry) example_pay_state =
       Inl (TypeError ([CHR 0x27] @ ''<'' @ [CHR 0x27] @ '' not supported between instances of ''
                     @ [CHR 0x27] @ ''float'' @ [CHR 0x27] @ '' and '' @ [CHR 0x27] @ ''NoneType''
                     @ [CHR 0x27]))
   \<and> map entry_agent (calls_after (call_agents_node bad_registry example_pay_state))
       = [Some (PStr ''orchestrator''), Some (PStr ''Payment Agent''), Some (PStr ''Loyalty Agent'')]
   \<and> map entry_status (calls_after (call_agents_node bad_registry example_pay_state))
       = [None, Some (PStr ''processing''), Some (PStr ''success'')]
   \<and> map_of (last (calls_after (call_agents_node bad_registry example_pay_state))) ''error''
       = Some (PStr ([CHR 0x27] @ ''<'' @ [CHR 0x27] @ '' not supported between instances of ''
                     @ [CHR 0x27] @ ''float'' @ [CHR 0x27] @ '' and '' @ [CHR 0x27] @ ''NoneType''
                     @ [CHR 0x27]))
   \<and> map_of (last (calls_after (call_agents_node bad_registry example_pay_state))) ''result''
       = Some (PDict example_payment_result)
   \<and> slot_after (call_agents_node bad_registry example_pay_state) ''status''
       = Some (PStr ''completed'')"
proof -
  let ?pay = "payment_agent bad_registry"
  let ?loy = "loyalty_agent bad_registry"
  let ?st = example_pay_state
  let ?msg = "[CHR 0x27] @ ''<'' @ [CHR 0x27] @ '' not supported between instances of ''
                     @ [CHR 0x27] @ ''float'' @ [CHR 0x27] @ '' and '' @ [CHR 0x27] @ ''NoneType''
                     @ [CHR 0x27]"
  have names: "agent_name ?pay = ''Payment Agent''" "agent_name ?loy = ''Loyalty Agent''"
    by (simp_all add: bad_registry_def agents_def payment_agent_of_def)
  have tasks: "selected_tasks bad_registry (agents_needed ?st) = [?pay, ?loy]"
    by (simp add: pay_state_needed selected_tasks_def)
  have cid: "customer_id (run_start b (run_start a ?st)) = ''CUST001''" for a b
    by (simp add: run_start_def pay_state_fields)
  have susp: "suspends ?pay (run_start ?pay ?st)"
    using pay_state_requested
    by (simp add: bad_registry_def agents_def payment_agent_of_def run_start_def gateways_def)
  have nosusp: "\<not> suspends ?loy (run_start ?loy (run_start ?pay ?st))"
    by (simp add: bad_registry_def agents_def)
  have raise0: "execute ?loy ?st = Inl (TypeError ?msg)"
    using bad_loyalty_raises[of ?st] by (simp add: pay_state_fields)
  have raise1: "execute ?loy (run_start ?loy (run_start ?pay ?st)) = Inl (TypeError ?msg)"
    using bad_loyalty_raises[OF cid] by simp
  have payres: "execute ?pay (run_start ?pay ?st) = Inr (RDict example_payment_result)"
    using bad_payment_result[where st = ?st] by (simp add: run_start_def example_payment_result_def)
  have orch: "agent_calls ?st =
     [[(''agent'', PStr ''orchestrator''), (''action'', PStr ''analyzed_request''),
       (''agents_to_call'', PList [PStr ''payment'', PStr ''loyalty''])]]"
    using pay_state_needed
    by (simp add: example_pay_state_def orchestrator_calls pay_state_fields)
  have calls: "agent_calls (fst (gather [?pay, ?loy] ?st)) =
     [[(''agent'', PStr ''orchestrator''), (''action'', PStr ''analyzed_request''),
       (''agents_to_call'', PList [PStr ''payment'', PStr ''loyalty''])],
      [(''agent'', PStr ''Payment Agent''), (''status'', PStr ''processing'')],
      [(''agent'', PStr ''Loyalty Agent''), (''status'', PStr ''success''),
       (''error'', PStr ?msg), (''result'', PDict example_payment_result)]]"
    unfolding gather_pending_then_done[OF susp nosusp] raise1 payres orch
    by (simp add: processing_entry_def finish_update_def dict_update_def names)
  obtain s2 rs where g: "gather [?pay, ?loy] ?st = (s2, rs)" by (cases "gather [?pay, ?loy] ?st")
  from gather_frame[OF g] obtain cs where s2: "s2 = ?st\<lparr>agent_calls := cs\<rparr>"
    and l: "list_all2 (contributed_by ?st) [?pay, ?loy] rs" by blast
  from l obtain r1 r2 where rs: "rs = [r1, r2]"
    and c1: "contributed_by ?st ?pay r1" and c2: "contributed_by ?st ?loy r2"
    by (auto simp add: list_all2_Cons1)
  have r1: "r1 = RDict example_payment_result"
    using c1 by (auto simp add: contributed_by_def bad_payment_result example_payment_result_def)
  have r2: "r2 = RDict []"
    using c2 bad_loyalty_raises by (auto simp add: contributed_by_def pay_state_fields)
  have run: "call_agents_node bad_registry ?st
               = Inr (s2\<lparr>slots := store_all (slots s2) example_payment_result\<rparr>)"
    using tasks g rs r1 r2 example_payment_status(3)
    by (simp add: call_agents_node_def Let_def)
  have log: "calls_after (call_agents_node bad_registry ?st) = agent_calls (fst (gather [?pay, ?loy] ?st))"
    using run g by (simp add: calls_after_def)
  have status: "slot_after (call_agents_node bad_registry ?st) ''status'' = Some (PStr ''completed'')"
    using run by (simp add: slot_after_def store_all_conv example_payment_status)
  from pay_state_needed raise0 status show ?thesis
    unfolding log calls by (simp add: entry_agent_def entry_status_def)
qed

end
